theory Spec2Isabelle
  imports Main "HOL-Library.Multiset"
begin

text \<open>
  A student roster: the record form and the list view of the front end, the table
  \<^verbatim>\<open>public.alunos\<close> with its row-level policies and its timestamp trigger, and the
  trigger that gives every new identity a profile. The front end is modelled by state
  passing over the view, the form and the backend; the migration by functions on tables
  that return an error or the new table.
\<close>

section \<open>Strings of the front end\<close>

text \<open>
  A JavaScript string is a sequence of UTF-16 code units. The model covers the strings
  whose code units are below 256 (Basic Latin and Latin-1 Supplement), one \<^typ>\<open>char\<close>
  per code unit. On these strings \<^verbatim>\<open>length\<close>, \<^verbatim>\<open>trim\<close>, \<^verbatim>\<open>toLowerCase\<close> and
  \<^verbatim>\<open>includes\<close> act unit by unit, as written below.
\<close>

text \<open>
  The code units that \<^verbatim>\<open>String.prototype.trim\<close> strips (WhiteSpace and LineTerminator of
  ECMAScript) in this range: TAB, LF, VT, FF, CR, SPACE and NO-BREAK SPACE.
\<close>

definition isWhiteSpace :: "char \<Rightarrow> bool" where
  "isWhiteSpace c = ((of_char c :: nat) \<in> set [9, 10, 11, 12, 13, 32, 160])"

definition trimStart :: "string \<Rightarrow> string" where
  "trimStart s = dropWhile isWhiteSpace s"

definition trimEnd :: "string \<Rightarrow> string" where
  "trimEnd s = rev (dropWhile isWhiteSpace (rev s))"

definition trim :: "string \<Rightarrow> string" where
  "trim s = trimEnd (trimStart s)"






section \<open>The record form: \<^verbatim>\<open>AlunoForm.tsx\<close>\<close>

datatype field_key = Key_nome | Key_email | Key_data_nascimento

text \<open>
  The four messages of \<^verbatim>\<open>alunoSchema\<close>, in the order of the source: name required,
  name too long, email invalid, birth date required.
\<close>

datatype message =
  Nome_obrigatorio | Nome_muito_longo | Email_invalido | Data_de_nascimento_obrigatoria

text \<open>An issue of the parse result: the first path element and the message.\<close>

datatype issue = Issue field_key message

record form_data =
  fd_nome :: string
  fd_email :: string
  fd_data_nascimento :: string

text \<open>
  The checks of a zod string run in the order they were chained, each on the value the
  ones before it left; \<^verbatim>\<open>trim\<close> replaces the value, \<^verbatim>\<open>min\<close>, \<^verbatim>\<open>max\<close> and \<^verbatim>\<open>email\<close>
  add an issue when they fail and let the later checks run. The regular expression of the
  \<^verbatim>\<open>email\<close> check belongs to the zod library and is the parameter \<open>emailRe\<close>.
\<close>

definition nome_schema :: "string \<Rightarrow> issue list \<times> string" where
  "nome_schema v =
     (let t = trim v in
      ((if length t < 1 then [Issue Key_nome Nome_obrigatorio] else []) @
       (if length t > 100 then [Issue Key_nome Nome_muito_longo] else []), t))"

definition email_schema :: "(string \<Rightarrow> bool) \<Rightarrow> string \<Rightarrow> issue list \<times> string" where
  "email_schema emailRe v =
     (let t = trim v in
      ((if emailRe t then [] else [Issue Key_email Email_invalido]), t))"

definition data_nascimento_schema :: "string \<Rightarrow> issue list \<times> string" where
  "data_nascimento_schema v =
     ((if length v < 1 then [Issue Key_data_nascimento Data_de_nascimento_obrigatoria]
       else []), v)"

text \<open>\<^verbatim>\<open>alunoSchema.safeParse\<close>: the issues of the three fields in the order of the shape.\<close>

definition alunoSchema_safeParse ::
  "(string \<Rightarrow> bool) \<Rightarrow> string \<Rightarrow> string \<Rightarrow> string \<Rightarrow> issue list + form_data" where
  "alunoSchema_safeParse emailRe n e d =
     (let (ni, nv) = nome_schema n;
          (ei, ev) = email_schema emailRe e;
          (di, dv) = data_nascimento_schema d;
          issues = ni @ ei @ di
      in if issues = []
         then Inr \<lparr>fd_nome = nv, fd_email = ev, fd_data_nascimento = dv\<rparr>
         else Inl issues)"

record form =
  form_nome :: string
  form_email :: string
  dataNascimento :: string
  errors :: "field_key \<rightharpoonup> message"
  isLoading :: bool

text \<open>
  The loop of \<^verbatim>\<open>validateForm\<close> over the issues: a later issue of a field overwrites.
  The first path element of every issue of this schema is a field name, so the guard of
  the loop always holds.
\<close>

fun collect_errors :: "(field_key \<rightharpoonup> message) \<Rightarrow> issue list \<Rightarrow> (field_key \<rightharpoonup> message)" where
  "collect_errors newErrors [] = newErrors"
| "collect_errors newErrors (Issue k m # rest) = collect_errors (newErrors(k \<mapsto> m)) rest"

definition validateForm :: "(string \<Rightarrow> bool) \<Rightarrow> form \<Rightarrow> bool \<times> form" where
  "validateForm emailRe f =
     (case alunoSchema_safeParse emailRe (form_nome f) (form_email f) (dataNascimento f) of
        Inl issues \<Rightarrow> (False, f\<lparr>errors := collect_errors Map.empty issues\<rparr>)
      | Inr _ \<Rightarrow> (True, f\<lparr>errors := Map.empty\<rparr>))"

section \<open>The record store: table \<^verbatim>\<open>public.alunos\<close> of the migration\<close>

type_synonym uuid = nat
type_synonym timestamptz = nat

record aluno =
  aluno_id :: uuid
  nome :: string
  email :: string
  data_nascimento :: string
  created_by :: uuid
  created_at :: timestamptz
  updated_at :: timestamptz

text \<open>
  The columns a request sets; \<open>None\<close> is a column the request leaves out. The client of
  the backend passes on whatever object it is given, so every column can be present.
\<close>

record payload =
  p_id :: "uuid option"
  p_nome :: "string option"
  p_email :: "string option"
  p_data_nascimento :: "string option"
  p_created_by :: "uuid option"
  p_created_at :: "timestamptz option"
  p_updated_at :: "timestamptz option"

datatype store_error =
  TransportError | RlsViolation | NotNullViolation | UniqueViolation

subsection \<open>Row-level policies\<close>

text \<open>
  \<^verbatim>\<open>auth.uid() = created_by\<close> in SQL's three-valued logic: a comparison with NULL (no
  authenticated caller, or a missing column) is NULL. A \<^verbatim>\<open>USING\<close> expression that is not
  true hides the row from the command; a \<^verbatim>\<open>WITH CHECK\<close> expression that is not true on
  a new row raises an error.
\<close>

definition sql_eq :: "uuid option \<Rightarrow> uuid option \<Rightarrow> bool option" where
  "sql_eq a b =
     (case a of None \<Rightarrow> None
      | Some x \<Rightarrow> (case b of None \<Rightarrow> None | Some y \<Rightarrow> Some (x = y)))"

definition is_true :: "bool option \<Rightarrow> bool" where
  "is_true v = (v = Some True)"

text \<open>\<^verbatim>\<open>"Users can view their own alunos" FOR SELECT USING (auth.uid() = created_by)\<close>\<close>

definition alunos_select_using :: "uuid option \<Rightarrow> aluno \<Rightarrow> bool" where
  "alunos_select_using uid r = is_true (sql_eq uid (Some (created_by r)))"

text \<open>\<^verbatim>\<open>"Users can create their own alunos" FOR INSERT WITH CHECK (auth.uid() = created_by)\<close>\<close>

definition alunos_insert_check :: "uuid option \<Rightarrow> uuid option \<Rightarrow> bool" where
  "alunos_insert_check uid new_created_by = is_true (sql_eq uid new_created_by)"

text \<open>
  \<^verbatim>\<open>"Users can update their own alunos" FOR UPDATE USING (auth.uid() = created_by)\<close>.
  The policy gives no \<^verbatim>\<open>WITH CHECK\<close>, so its \<^verbatim>\<open>USING\<close> expression also checks the new row.
\<close>

definition alunos_update_using :: "uuid option \<Rightarrow> aluno \<Rightarrow> bool" where
  "alunos_update_using uid r = is_true (sql_eq uid (Some (created_by r)))"

text \<open>\<^verbatim>\<open>"Users can delete their own alunos" FOR DELETE USING (auth.uid() = created_by)\<close>\<close>

definition alunos_delete_using :: "uuid option \<Rightarrow> aluno \<Rightarrow> bool" where
  "alunos_delete_using uid r = is_true (sql_eq uid (Some (created_by r)))"

subsection \<open>Select\<close>

text \<open>
  \<^verbatim>\<open>.select('*').order('created_at', { ascending: false })\<close>: the rows the select policy
  lets through, latest creation first.
\<close>

definition order_created_at_desc :: "aluno list \<Rightarrow> aluno list" where
  "order_created_at_desc rs = rev (sort_key created_at rs)"

definition select_alunos :: "uuid option \<Rightarrow> aluno list \<Rightarrow> aluno list" where
  "select_alunos uid tbl = order_created_at_desc (filter (alunos_select_using uid) tbl)"

subsection \<open>Insert\<close>

text \<open>
  The new row takes the column defaults (\<^verbatim>\<open>gen_random_uuid()\<close> for the id, \<^verbatim>\<open>now()\<close> for
  both timestamps) where the request leaves a column out. The policy check comes first,
  then the NOT NULL columns, then the unique indexes (primary key and \<^verbatim>\<open>email UNIQUE\<close>).
  No trigger of the migration runs on insert.
\<close>

definition insert_alunos ::
  "uuid option \<Rightarrow> timestamptz \<Rightarrow> uuid \<Rightarrow> payload \<Rightarrow> aluno list \<Rightarrow> store_error + aluno list" where
  "insert_alunos uid now gen p tbl =
     (if \<not> alunos_insert_check uid (p_created_by p) then Inl RlsViolation
      else case (p_nome p, p_email p, p_data_nascimento p, p_created_by p) of
        (Some n, Some e, Some d, Some c) \<Rightarrow>
          (let r = \<lparr>aluno_id = (case p_id p of Some i \<Rightarrow> i | None \<Rightarrow> gen),
                    nome = n, email = e, data_nascimento = d, created_by = c,
                    created_at = (case p_created_at p of Some t \<Rightarrow> t | None \<Rightarrow> now),
                    updated_at = (case p_updated_at p of Some t \<Rightarrow> t | None \<Rightarrow> now)\<rparr>
           in if aluno_id r \<in> set (map aluno_id tbl) \<or> email r \<in> set (map email tbl)
              then Inl UniqueViolation
              else Inr (tbl @ [r]))
      | _ \<Rightarrow> Inl NotNullViolation)"

subsection \<open>Update\<close>

definition apply_payload :: "payload \<Rightarrow> aluno \<Rightarrow> aluno" where
  "apply_payload p r =
     \<lparr>aluno_id = (case p_id p of Some v \<Rightarrow> v | None \<Rightarrow> aluno_id r),
      nome = (case p_nome p of Some v \<Rightarrow> v | None \<Rightarrow> nome r),
      email = (case p_email p of Some v \<Rightarrow> v | None \<Rightarrow> email r),
      data_nascimento = (case p_data_nascimento p of Some v \<Rightarrow> v | None \<Rightarrow> data_nascimento r),
      created_by = (case p_created_by p of Some v \<Rightarrow> v | None \<Rightarrow> created_by r),
      created_at = (case p_created_at p of Some v \<Rightarrow> v | None \<Rightarrow> created_at r),
      updated_at = (case p_updated_at p of Some v \<Rightarrow> v | None \<Rightarrow> updated_at r)\<rparr>"

text \<open>
  \<^verbatim>\<open>update_updated_at_column\<close>, run by the trigger \<^verbatim>\<open>update_alunos_updated_at\<close>
  \<^verbatim>\<open>BEFORE UPDATE ... FOR EACH ROW\<close>: \<^verbatim>\<open>NEW.updated_at = now(); RETURN NEW\<close>.
\<close>

definition update_updated_at_column :: "timestamptz \<Rightarrow> aluno \<Rightarrow> aluno" where
  "update_updated_at_column now new = new\<lparr>updated_at := now\<rparr>"

text \<open>
  The rows an \<^verbatim>\<open>.update(p).eq('id', k)\<close> works on: the rows the policies show to the
  command (the filter reads a column, so the select policy applies too) that have the id.
\<close>

definition update_target :: "uuid option \<Rightarrow> uuid \<Rightarrow> aluno \<Rightarrow> bool" where
  "update_target uid k r =
     (alunos_select_using uid r \<and> alunos_update_using uid r \<and> aluno_id r = k)"

definition update_row :: "uuid option \<Rightarrow> timestamptz \<Rightarrow> payload \<Rightarrow> uuid \<Rightarrow> aluno \<Rightarrow> aluno" where
  "update_row uid now p k r =
     (if update_target uid k r then update_updated_at_column now (apply_payload p r) else r)"

text \<open>
  Each target row gets the payload, then the trigger; the new row must pass the policy
  and must not share its id or its email with another row of the table. An error aborts
  the statement and leaves the table as it was.
\<close>

definition update_alunos ::
  "uuid option \<Rightarrow> timestamptz \<Rightarrow> payload \<Rightarrow> uuid \<Rightarrow> aluno list \<Rightarrow> store_error + aluno list" where
  "update_alunos uid now p k tbl =
     (let new_rows = map (update_row uid now p k) (filter (update_target uid k) tbl);
          new_tbl = map (update_row uid now p k) tbl
      in if list_ex (\<lambda>r. \<not> alunos_update_using uid r) new_rows then Inl RlsViolation
         else if list_ex (\<lambda>r. 1 < length (filter (\<lambda>x. aluno_id x = aluno_id r) new_tbl) \<or>
                               1 < length (filter (\<lambda>x. email x = email r) new_tbl)) new_rows
         then Inl UniqueViolation
         else Inr new_tbl)"

subsection \<open>Delete\<close>

definition delete_target :: "uuid option \<Rightarrow> uuid \<Rightarrow> aluno \<Rightarrow> bool" where
  "delete_target uid k r =
     (alunos_select_using uid r \<and> alunos_delete_using uid r \<and> aluno_id r = k)"

definition delete_alunos :: "uuid option \<Rightarrow> uuid \<Rightarrow> aluno list \<Rightarrow> aluno list" where
  "delete_alunos uid k tbl = filter (\<lambda>r. \<not> delete_target uid k r) tbl"

subsection \<open>Histories\<close>

text \<open>
  A history of the table: store operations, each by some caller at some time of the
  server clock, applied in order from the table as the migration creates it. A failed
  operation leaves the table as it was.
\<close>

datatype store_op = Op_insert payload uuid | Op_update payload uuid | Op_delete uuid

record event =
  ev_time :: timestamptz
  ev_caller :: "uuid option"
  ev_op :: store_op

definition apply_event :: "event \<Rightarrow> aluno list \<Rightarrow> aluno list" where
  "apply_event e tbl =
     (case ev_op e of
        Op_insert p g \<Rightarrow>
          (case insert_alunos (ev_caller e) (ev_time e) g p tbl of
             Inl err \<Rightarrow> tbl
           | Inr t \<Rightarrow> t)
      | Op_update p k \<Rightarrow>
          (case update_alunos (ev_caller e) (ev_time e) p k tbl of
             Inl err \<Rightarrow> tbl
           | Inr t \<Rightarrow> t)
      | Op_delete k \<Rightarrow> delete_alunos (ev_caller e) k tbl)"

fun run_events :: "event list \<Rightarrow> aluno list \<Rightarrow> aluno list" where
  "run_events [] tbl = tbl"
| "run_events (e # es) tbl = run_events es (apply_event e tbl)"

text \<open>An operation that leaves \<open>updated_at\<close> to the server: no insert with the column.\<close>

definition server_stamped :: "event \<Rightarrow> bool" where
  "server_stamped e =
     (case ev_op e of
        Op_insert p g \<Rightarrow> p_updated_at p = None
      | Op_update p k \<Rightarrow> True
      | Op_delete k \<Rightarrow> True)"

subsection \<open>Requests of the client\<close>

text \<open>
  What the backend is at the time of a request: whether it can be reached, the identity
  of the session (\<^verbatim>\<open>user?.id\<close> in the component, \<^verbatim>\<open>auth.uid()\<close> in the policies), the
  values \<^verbatim>\<open>now()\<close> (\<open>tx_now\<close>) and \<^verbatim>\<open>gen_random_uuid()\<close> give during the request, the
  table, and the log of the requests sent so far. A request that does not reach the backend
  fails with a transport error and changes nothing but the log. The requests of one handler
  run meet the same reachability, identity and clock.
\<close>

datatype request =
  Select_alunos | Insert_alunos payload | Update_alunos payload uuid | Delete_alunos uuid

record backend =
  online :: bool
  auth_uid :: "uuid option"
  tx_now :: timestamptz
  gen_random_uuid :: uuid
  public_alunos :: "aluno list"
  requests :: "request list"

definition request_select :: "backend \<Rightarrow> (store_error + aluno list) \<times> backend" where
  "request_select b =
     (let b1 = b\<lparr>requests := requests b @ [Select_alunos]\<rparr>
      in if \<not> online b then (Inl TransportError, b1)
         else (Inr (select_alunos (auth_uid b) (public_alunos b)), b1))"

definition request_insert :: "payload \<Rightarrow> backend \<Rightarrow> store_error option \<times> backend" where
  "request_insert p b =
     (let b1 = b\<lparr>requests := requests b @ [Insert_alunos p]\<rparr>
      in if \<not> online b then (Some TransportError, b1)
         else case insert_alunos (auth_uid b) (tx_now b) (gen_random_uuid b) p (public_alunos b) of
                Inl e \<Rightarrow> (Some e, b1)
              | Inr t \<Rightarrow> (None, b1\<lparr>public_alunos := t\<rparr>))"

definition request_update :: "payload \<Rightarrow> uuid \<Rightarrow> backend \<Rightarrow> store_error option \<times> backend" where
  "request_update p k b =
     (let b1 = b\<lparr>requests := requests b @ [Update_alunos p k]\<rparr>
      in if \<not> online b then (Some TransportError, b1)
         else case update_alunos (auth_uid b) (tx_now b) p k (public_alunos b) of
                Inl e \<Rightarrow> (Some e, b1)
              | Inr t \<Rightarrow> (None, b1\<lparr>public_alunos := t\<rparr>))"

definition request_delete :: "uuid \<Rightarrow> backend \<Rightarrow> store_error option \<times> backend" where
  "request_delete k b =
     (let b1 = b\<lparr>requests := requests b @ [Delete_alunos k]\<rparr>
      in if \<not> online b then (Some TransportError, b1)
         else (None, b1\<lparr>public_alunos := delete_alunos (auth_uid b) k (public_alunos b)\<rparr>))"

section \<open>The list view: \<^verbatim>\<open>AlunosList.tsx\<close>\<close>

text \<open>
  The notifications of the component, by title. The ones that carry an error are shown
  with \<^verbatim>\<open>variant: 'destructive'\<close> and the error's message as description.
\<close>

datatype toast =
    Erro_ao_carregar_alunos store_error
  | Aluno_criado
  | Erro_ao_criar_aluno store_error
  | Aluno_atualizado
  | Erro_ao_atualizar_aluno store_error
  | Aluno_excluido
  | Erro_ao_excluir_aluno store_error

fun destructive :: "toast \<Rightarrow> bool" where
  "destructive (Erro_ao_carregar_alunos e) = True"
| "destructive (Erro_ao_criar_aluno e) = True"
| "destructive (Erro_ao_atualizar_aluno e) = True"
| "destructive (Erro_ao_excluir_aluno e) = True"
| "destructive t = False"

record view =
  alunos :: "aluno list"
  filteredAlunos :: "aluno list"
  searchTerm :: string
  isFormOpen :: bool
  editingAluno :: "aluno option"
  deleteDialogOpen :: bool
  alunoToDelete :: "uuid option"
  loading :: bool
  toasts :: "toast list"



fun fetchAlunos :: "view \<times> backend \<Rightarrow> view \<times> backend" where
  "fetchAlunos (v, b) =
     (let v1 = v\<lparr>loading := True\<rparr>
      in case request_select b of
           (Inl e, b1) \<Rightarrow>
             (v1\<lparr>toasts := toasts v1 @ [Erro_ao_carregar_alunos e], loading := False\<rparr>, b1)
         | (Inr data, b1) \<Rightarrow> (v1\<lparr>alunos := data, loading := False\<rparr>, b1))"

text \<open>\<^verbatim>\<open>insert({ ...data, created_by: user?.id })\<close>; the follow-up fetch only on success.\<close>

definition create_payload :: "form_data \<Rightarrow> uuid option \<Rightarrow> payload" where
  "create_payload data user_id_opt =
     \<lparr>p_id = None, p_nome = Some (fd_nome data), p_email = Some (fd_email data),
      p_data_nascimento = Some (fd_data_nascimento data),
      p_created_by = user_id_opt, p_created_at = None, p_updated_at = None\<rparr>"

fun handleCreate :: "form_data \<Rightarrow> view \<times> backend \<Rightarrow> view \<times> backend" where
  "handleCreate data (v, b) =
     (case request_insert (create_payload data (auth_uid b)) b of
        (Some e, b1) \<Rightarrow> (v\<lparr>toasts := toasts v @ [Erro_ao_criar_aluno e]\<rparr>, b1)
      | (None, b1) \<Rightarrow> fetchAlunos (v\<lparr>toasts := toasts v @ [Aluno_criado]\<rparr>, b1))"

text \<open>\<^verbatim>\<open>update(data).eq('id', editingAluno.id)\<close>\<close>

definition update_payload :: "form_data \<Rightarrow> payload" where
  "update_payload data =
     \<lparr>p_id = None, p_nome = Some (fd_nome data), p_email = Some (fd_email data),
      p_data_nascimento = Some (fd_data_nascimento data),
      p_created_by = None, p_created_at = None, p_updated_at = None\<rparr>"

fun handleUpdate :: "form_data \<Rightarrow> view \<times> backend \<Rightarrow> view \<times> backend" where
  "handleUpdate data (v, b) =
     (case editingAluno v of
        None \<Rightarrow> (v, b)
      | Some a \<Rightarrow>
          (case request_update (update_payload data) (aluno_id a) b of
             (Some e, b1) \<Rightarrow> (v\<lparr>toasts := toasts v @ [Erro_ao_atualizar_aluno e]\<rparr>, b1)
           | (None, b1) \<Rightarrow>
               fetchAlunos (v\<lparr>toasts := toasts v @ [Aluno_atualizado], editingAluno := None\<rparr>, b1)))"

fun handleDelete :: "view \<times> backend \<Rightarrow> view \<times> backend" where
  "handleDelete (v, b) =
     (case alunoToDelete v of
        None \<Rightarrow> (v, b)
      | Some k \<Rightarrow>
          (case (case request_delete k b of
                   (Some e, b1) \<Rightarrow> (v\<lparr>toasts := toasts v @ [Erro_ao_excluir_aluno e]\<rparr>, b1)
                 | (None, b1) \<Rightarrow> fetchAlunos (v\<lparr>toasts := toasts v @ [Aluno_excluido]\<rparr>, b1)) of
             (v2, b2) \<Rightarrow> (v2\<lparr>deleteDialogOpen := False, alunoToDelete := None\<rparr>, b2)))"

definition confirmDelete :: "uuid \<Rightarrow> view \<Rightarrow> view" where
  "confirmDelete k v = v\<lparr>alunoToDelete := Some k, deleteDialogOpen := True\<rparr>"

text \<open>The \<^verbatim>\<open>onOpenChange\<close> the list passes to the form.\<close>

definition onOpenChange :: "bool \<Rightarrow> view \<Rightarrow> view" where
  "onOpenChange opn v =
     (let v1 = v\<lparr>isFormOpen := opn\<rparr>
      in if \<not> opn then v1\<lparr>editingAluno := None\<rparr> else v1)"

text \<open>The \<^verbatim>\<open>onSubmit\<close> the list passes to the form.\<close>

definition onSubmit :: "form_data \<Rightarrow> view \<times> backend \<Rightarrow> view \<times> backend" where
  "onSubmit data vb =
     (if editingAluno (fst vb) \<noteq> None then handleUpdate data vb else handleCreate data vb)"

text \<open>
  \<^verbatim>\<open>handleSubmit\<close> of the form. The awaited \<^verbatim>\<open>onSubmit\<close> gives no result back: both
  handlers catch the error of their request themselves.
\<close>

definition submitted_data :: "form \<Rightarrow> form_data" where
  "submitted_data f =
     \<lparr>fd_nome = trim (form_nome f), fd_email = trim (form_email f),
      fd_data_nascimento = dataNascimento f\<rparr>"

fun handleSubmit :: "(string \<Rightarrow> bool) \<Rightarrow> form \<times> view \<times> backend \<Rightarrow> form \<times> view \<times> backend" where
  "handleSubmit emailRe (f, v, b) =
     (case validateForm emailRe f of
        (False, f1) \<Rightarrow> (f1, v, b)
      | (True, f1) \<Rightarrow>
          (let f2 = f1\<lparr>isLoading := True\<rparr>
           in case onSubmit (submitted_data f2) (v, b) of
                (v1, b1) \<Rightarrow> (f2\<lparr>isLoading := False\<rparr>, onOpenChange False v1, b1)))"

section \<open>Identities and profiles\<close>

text \<open>
  \<^verbatim>\<open>auth.users\<close> belongs to the identity store; of its columns the migration reads the id
  (its primary key) and the email, which that table lets be NULL.
\<close>

record identity =
  user_id :: uuid
  user_email :: "string option"

record profile =
  profile_id :: uuid
  profile_email :: string
  profile_created_at :: timestamptz

record database =
  auth_users :: "identity list"
  profiles :: "profile list"
  alunos_rows :: "aluno list"

text \<open>
  \<^verbatim>\<open>handle_new_user\<close>: \<^verbatim>\<open>INSERT INTO public.profiles (id, email) VALUES (new.id, new.email)\<close>.
  The function is \<^verbatim>\<open>SECURITY DEFINER\<close>, so no policy of \<^verbatim>\<open>profiles\<close> applies to the insert;
  the constraints of the table do: \<^verbatim>\<open>email NOT NULL\<close> and the primary key on \<^verbatim>\<open>id\<close>.
\<close>

definition handle_new_user :: "timestamptz \<Rightarrow> identity \<Rightarrow> database \<Rightarrow> store_error + database" where
  "handle_new_user now new db =
     (case user_email new of
        None \<Rightarrow> Inl NotNullViolation
      | Some e \<Rightarrow>
          if user_id new \<in> set (map profile_id (profiles db)) then Inl UniqueViolation
          else Inr (db\<lparr>profiles := profiles db @
                 [\<lparr>profile_id = user_id new, profile_email = e, profile_created_at = now\<rparr>]\<rparr>))"

text \<open>The insert of the identity store into \<^verbatim>\<open>auth.users\<close>, before any trigger.\<close>

definition insert_auth_users :: "identity \<Rightarrow> database \<Rightarrow> store_error + database" where
  "insert_auth_users new db =
     (if user_id new \<in> set (map user_id (auth_users db)) then Inl UniqueViolation
      else Inr (db\<lparr>auth_users := auth_users db @ [new]\<rparr>))"

text \<open>
  Creating an identity: the insert, then \<^verbatim>\<open>on_auth_user_created\<close>
  (\<^verbatim>\<open>AFTER INSERT ON auth.users FOR EACH ROW\<close>) runs \<^verbatim>\<open>handle_new_user\<close> on the new row in the
  same transaction. An error in either step rolls the transaction back: the database is
  the one before it.
\<close>

definition create_identity ::
  "timestamptz \<Rightarrow> identity \<Rightarrow> database \<Rightarrow> store_error option \<times> database" where
  "create_identity now new db =
     (case insert_auth_users new db of
        Inl e \<Rightarrow> (Some e, db)
      | Inr db1 \<Rightarrow>
          (case handle_new_user now new db1 of
             Inl e \<Rightarrow> (Some e, db)
           | Inr db2 \<Rightarrow> (None, db2)))"

text \<open>
  Deleting an identity: \<^verbatim>\<open>profiles.id\<close> and \<^verbatim>\<open>alunos.created_by\<close> reference \<^verbatim>\<open>auth.users\<close>
  \<^verbatim>\<open>ON DELETE CASCADE\<close>.
\<close>

definition delete_identity :: "uuid \<Rightarrow> database \<Rightarrow> database" where
  "delete_identity k db =
     \<lparr>auth_users = filter (\<lambda>u. user_id u \<noteq> k) (auth_users db),
      profiles = filter (\<lambda>q. profile_id q \<noteq> k) (profiles db),
      alunos_rows = filter (\<lambda>r. created_by r \<noteq> k) (alunos_rows db)\<rparr>"

text \<open>
  \<^verbatim>\<open>"Users can update their own profile" FOR UPDATE USING (auth.uid() = id)\<close>: a caller
  rewrites the email of the own profile row (the id stays: the new row must pass the same
  expression). \<^verbatim>\<open>profiles\<close> has no insert and no delete policy, so with row-level
  security enabled no caller inserts or deletes a profile.
\<close>

definition update_profile_email :: "uuid option \<Rightarrow> string \<Rightarrow> database \<Rightarrow> database" where
  "update_profile_email uid e db =
     db\<lparr>profiles := map (\<lambda>q. if is_true (sql_eq uid (Some (profile_id q)))
                               then q\<lparr>profile_email := e\<rparr> else q) (profiles db)\<rparr>"

text \<open>
  The states of the database: the migration is applied to a project without identities,
  and from then on identities are created and deleted, profiles edited by their owners,
  and the rows of \<^verbatim>\<open>alunos\<close> changed through the requests above.
\<close>

inductive reachable :: "database \<Rightarrow> bool" where
  init: "reachable \<lparr>auth_users = [], profiles = [], alunos_rows = []\<rparr>"
| create: "reachable db \<Longrightarrow> create_identity now new db = (res, db') \<Longrightarrow> reachable db'"
| delete: "reachable db \<Longrightarrow> reachable (delete_identity k db)"
| edit: "reachable db \<Longrightarrow> reachable (update_profile_email uid e db)"
| rows: "reachable db \<Longrightarrow> reachable (db\<lparr>alunos_rows := t\<rparr>)"

section \<open>Notions of the specification and sample data\<close>




definition ana :: aluno where
  "ana = \<lparr>aluno_id = 1, nome = ''Ana'', email = ''a.lima@example.com'',
          data_nascimento = ''2010-05-04'', created_by = 7, created_at = 10, updated_at = 10\<rparr>"

definition bruno :: aluno where
  "bruno = \<lparr>aluno_id = 2, nome = ''Bruno'', email = ''bruno@example.com'',
            data_nascimento = ''2011-01-31'', created_by = 7, created_at = 20, updated_at = 20\<rparr>"

text \<open>
  The messages of a failed validation, field by field: one for an invalid field, none
  for a valid one.
\<close>

definition field_errors :: "(string \<Rightarrow> bool) \<Rightarrow> form \<Rightarrow> (field_key \<rightharpoonup> message)" where
  "field_errors emailRe f k =
     (case k of
        Key_nome \<Rightarrow>
          (if trim (form_nome f) = [] then Some Nome_obrigatorio
           else if 100 < length (trim (form_nome f)) then Some Nome_muito_longo
           else None)
      | Key_email \<Rightarrow> (if emailRe (trim (form_email f)) then None else Some Email_invalido)
      | Key_data_nascimento \<Rightarrow>
          (if dataNascimento f = [] then Some Data_de_nascimento_obrigatoria else None))"

text \<open>
  A stand-in for the email expression in the sample runs: it accepts the strings with an
  at sign. The runs use it on well-formed addresses only.
\<close>

definition sample_emailRe :: "string \<Rightarrow> bool" where
  "sample_emailRe s = (CHR ''@'' \<in> set s)"

text \<open>Sample views, backends and form inputs.\<close>

definition v_open :: view where
  "v_open = \<lparr>alunos = [], filteredAlunos = [], searchTerm = [], isFormOpen = True,
             editingAluno = None, deleteDialogOpen = False, alunoToDelete = None,
             loading = False, toasts = []\<rparr>"

definition b_ana :: backend where
  "b_ana = \<lparr>online = True, auth_uid = Some 7, tx_now = 30, gen_random_uuid = 3,
            public_alunos = [ana], requests = []\<rparr>"

definition f_padded :: form where
  "f_padded = \<lparr>form_nome = ''  Carla '', form_email = '' carla@example.com  '',
               dataNascimento = ''2012-03-09'', errors = Map.empty, isLoading = False\<rparr>"

definition f_empty :: form where
  "f_empty = \<lparr>form_nome = [], form_email = ''carla@example.com'',
              dataNascimento = ''2012-03-09'', errors = Map.empty, isLoading = False\<rparr>"

definition f_bad_email :: form where
  "f_bad_email = \<lparr>form_nome = ''Carla'', form_email = ''not-an-email'',
                  dataNascimento = ''2012-03-09'', errors = Map.empty, isLoading = False\<rparr>"

definition f_no_email :: form where
  "f_no_email = \<lparr>form_nome = ''Carla'', form_email = [],
                 dataNascimento = ''2012-03-09'', errors = Map.empty, isLoading = False\<rparr>"

definition f_blank :: form where
  "f_blank = \<lparr>form_nome = ''   '', form_email = ''carla@example.com'',
              dataNascimento = ''2012-03-09'', errors = Map.empty, isLoading = False\<rparr>"

definition f_long :: form where
  "f_long = \<lparr>form_nome = ''Ana'' @ replicate 98 (CHR '' ''), form_email = ''carla@example.com'',
             dataNascimento = ''2012-03-09'', errors = Map.empty, isLoading = False\<rparr>"

definition f_dup :: form where
  "f_dup = \<lparr>form_nome = ''Ana Maria'', form_email = ''a.lima@example.com'',
            dataNascimento = ''2012-03-09'', errors = Map.empty, isLoading = False\<rparr>"

definition b_two :: backend where
  "b_two = \<lparr>online = True, auth_uid = Some 7, tx_now = 30, gen_random_uuid = 3,
            public_alunos = [ana, bruno], requests = []\<rparr>"

definition v_edit :: view where
  "v_edit = \<lparr>alunos = [bruno, ana], filteredAlunos = [bruno, ana], searchTerm = [],
             isFormOpen = True, editingAluno = Some bruno, deleteDialogOpen = False,
             alunoToDelete = None, loading = False, toasts = []\<rparr>"

definition b_other :: backend where
  "b_other = \<lparr>online = True, auth_uid = Some 8, tx_now = 30, gen_random_uuid = 3,
              public_alunos = [ana], requests = []\<rparr>"

definition forged_insert :: payload where
  "forged_insert = \<lparr>p_id = None, p_nome = Some ''Davi'', p_email = Some ''davi@example.com'',
     p_data_nascimento = Some ''2013-07-21'', p_created_by = Some 7, p_created_at = None,
     p_updated_at = Some 100\<rparr>"

definition forged_update :: payload where
  "forged_update = \<lparr>p_id = None, p_nome = Some ''Davi Luz'', p_email = None,
     p_data_nascimento = None, p_created_by = None, p_created_at = None,
     p_updated_at = Some 999\<rparr>"

definition plain_insert :: payload where
  "plain_insert = \<lparr>p_id = None, p_nome = Some ''Davi'', p_email = Some ''davi@example.com'',
     p_data_nascimento = Some ''2013-07-21'', p_created_by = Some 7, p_created_at = None,
     p_updated_at = None\<rparr>"

definition history :: "event list" where
  "history =
     [\<lparr>ev_time = 1, ev_caller = Some 7, ev_op = Op_insert plain_insert 4\<rparr>,
      \<lparr>ev_time = 2, ev_caller = Some 7, ev_op = Op_update forged_update 4\<rparr>]"

definition davi :: "timestamptz \<Rightarrow> aluno" where
  "davi t = \<lparr>aluno_id = 4, nome = ''Davi Luz'', email = ''davi@example.com'',
     data_nascimento = ''2013-07-21'', created_by = 7, created_at = 1, updated_at = t\<rparr>"

definition b_empty :: backend where
  "b_empty = \<lparr>online = True, auth_uid = Some 7, tx_now = 1, gen_random_uuid = 4,
              public_alunos = [], requests = []\<rparr>"

definition b_inserted :: backend where
  "b_inserted = snd (request_insert forged_insert b_empty)"

definition b_updated :: backend where
  "b_updated = snd (request_update forged_update 4 (b_inserted\<lparr>tx_now := 2\<rparr>))"

definition db_init :: database where
  "db_init = \<lparr>auth_users = [], profiles = [], alunos_rows = []\<rparr>"

definition carla_identity :: identity where
  "carla_identity = \<lparr>user_id = 7, user_email = Some ''carla@example.com''\<rparr>"

definition phone_identity :: identity where
  "phone_identity = \<lparr>user_id = 9, user_email = None\<rparr>"

definition db_carla :: database where
  "db_carla = snd (create_identity 5 carla_identity db_init)"

text \<open>Identities and profiles pair up: the ids of either table are distinct and the same.\<close>

definition paired :: "database \<Rightarrow> bool" where
  "paired db =
     (distinct (map user_id (auth_users db)) \<and> distinct (map profile_id (profiles db)) \<and>
      set (map profile_id (profiles db)) = set (map user_id (auth_users db)))"

section \<open>Properties of the search\<close>




lemma of_char_less: "(of_char c :: nat) < 256"
  by (cases c) simp













section \<open>Properties of the form\<close>

lemma safeParse_cases:
  "alunoSchema_safeParse emailRe n e d =
     (if trim n \<noteq> [] \<and> length (trim n) \<le> 100 \<and> emailRe (trim e) \<and> d \<noteq> []
      then Inr \<lparr>fd_nome = trim n, fd_email = trim e, fd_data_nascimento = d\<rparr>
      else Inl ((if trim n = [] then [Issue Key_nome Nome_obrigatorio] else []) @
                (if 100 < length (trim n) then [Issue Key_nome Nome_muito_longo] else []) @
                (if emailRe (trim e) then [] else [Issue Key_email Email_invalido]) @
                (if d = [] then [Issue Key_data_nascimento Data_de_nascimento_obrigatoria] else [])))"
  by (simp add: alunoSchema_safeParse_def nome_schema_def email_schema_def
        data_nascimento_schema_def Let_def)

lemma validateForm_fst:
  "fst (validateForm emailRe f) \<longleftrightarrow>
     trim (form_nome f) \<noteq> [] \<and> length (trim (form_nome f)) \<le> 100 \<and>
     emailRe (trim (form_email f)) \<and> dataNascimento f \<noteq> []"
  by (simp add: validateForm_def safeParse_cases)

lemma validateForm_valid:
  "fst (validateForm emailRe f) \<Longrightarrow> validateForm emailRe f = (True, f\<lparr>errors := Map.empty\<rparr>)"
  by (simp add: validateForm_def safeParse_cases split: if_splits)

lemma validateForm_invalid:
  "\<not> fst (validateForm emailRe f) \<Longrightarrow>
   validateForm emailRe f = (False, f\<lparr>errors := field_errors emailRe f\<rparr>)"
proof -
  assume a: "\<not> fst (validateForm emailRe f)"
  have "collect_errors Map.empty
          ((if trim (form_nome f) = [] then [Issue Key_nome Nome_obrigatorio] else []) @
           (if 100 < length (trim (form_nome f)) then [Issue Key_nome Nome_muito_longo] else []) @
           (if emailRe (trim (form_email f)) then [] else [Issue Key_email Email_invalido]) @
           (if dataNascimento f = [] then [Issue Key_data_nascimento Data_de_nascimento_obrigatoria] else []))
        = field_errors emailRe f"
    by (rule ext) (simp add: field_errors_def split: field_key.splits)
  with a show ?thesis
    by (simp add: validateForm_def safeParse_cases split: if_splits)
qed

lemma trim_all_white: "\<forall>c \<in> set s. isWhiteSpace c \<Longrightarrow> trim s = []"
proof -
  assume "\<forall>c \<in> set s. isWhiteSpace c"
  then have d: "dropWhile isWhiteSpace s = []" by simp
  show ?thesis unfolding trim_def trimStart_def trimEnd_def d by simp
qed

lemma trim_Nil: "trim [] = []"
  by (simp add: trim_def trimStart_def trimEnd_def)

lemma requests_fetch: "requests (snd (fetchAlunos (v, b))) = requests b @ [Select_alunos]"
  by (simp add: request_select_def Let_def)

lemma requests_insert: "requests (snd (request_insert p b)) = requests b @ [Insert_alunos p]"
  by (simp add: request_insert_def Let_def split: sum.splits)

lemma requests_update: "requests (snd (request_update p k b)) = requests b @ [Update_alunos p k]"
  by (simp add: request_update_def Let_def split: sum.splits)

lemma handleCreate_requests:
  "requests (snd (handleCreate d (v, b))) =
     requests b @ Insert_alunos (create_payload d (auth_uid b)) #
       (if fst (request_insert (create_payload d (auth_uid b)) b) = None then [Select_alunos] else [])"
proof (cases "request_insert (create_payload d (auth_uid b)) b")
  case (Pair r b1)
  have b1: "requests b1 = requests b @ [Insert_alunos (create_payload d (auth_uid b))]"
    using requests_insert [of "create_payload d (auth_uid b)" b] Pair by simp
  show ?thesis
  proof (cases r)
    case None
    with Pair b1 show ?thesis
      using requests_fetch [of "v\<lparr>toasts := toasts v @ [Aluno_criado]\<rparr>" b1] by simp
  next
    case (Some e)
    with Pair b1 show ?thesis by simp
  qed
qed

lemma handleUpdate_requests:
  "editingAluno v = Some a \<Longrightarrow>
   requests (snd (handleUpdate d (v, b))) =
     requests b @ Update_alunos (update_payload d) (aluno_id a) #
       (if fst (request_update (update_payload d) (aluno_id a) b) = None then [Select_alunos] else [])"
proof (cases "request_update (update_payload d) (aluno_id a) b")
  case (Pair r b1)
  assume ed: "editingAluno v = Some a"
  have b1: "requests b1 = requests b @ [Update_alunos (update_payload d) (aluno_id a)]"
    using requests_update [of "update_payload d" "aluno_id a" b] Pair by simp
  show ?thesis
  proof (cases r)
    case None
    with Pair b1 ed show ?thesis
      using requests_fetch [of "v\<lparr>toasts := toasts v @ [Aluno_atualizado], editingAluno := None\<rparr>" b1]
      by simp
  next
    case (Some e)
    with Pair b1 ed show ?thesis by simp
  qed
qed

lemma handleSubmit_invalid:
  "\<not> fst (validateForm emailRe f) \<Longrightarrow>
   handleSubmit emailRe (f, v, b) = (f\<lparr>errors := field_errors emailRe f\<rparr>, v, b)"
  by (simp add: validateForm_invalid)

lemma handleSubmit_valid:
  "fst (validateForm emailRe f) \<Longrightarrow>
   handleSubmit emailRe (f, v, b) =
     (f\<lparr>errors := Map.empty, isLoading := False\<rparr>,
      onOpenChange False (fst (onSubmit (submitted_data f) (v, b))),
      snd (onSubmit (submitted_data f) (v, b)))"
  by (simp add: validateForm_valid submitted_data_def split: prod.splits)

text \<open>
  C4, as the code has it. The email expression of the schema is taken to accept no
  string without an at sign. The checks are made on the trimmed name and the trimmed
  email: when the trimmed name is empty or longer than 100 code units, or the trimmed
  email is empty, has no at sign or is rejected by the email expression otherwise, or the
  birth date is empty, the submit handler stores one message for each invalid field and
  none for the others, sends no request and leaves the view, so the open form, as it is.
  An empty name gets the name-required message, and an empty or malformed email the
  email-invalid message.
\<close>

theorem submit_invalid:
  assumes at: "\<And>s. emailRe s \<Longrightarrow> CHR ''@'' \<in> set s"
  shows "(trim (form_nome f) = [] \<or> 100 < length (trim (form_nome f)) \<or>
          trim (form_email f) = [] \<or> CHR ''@'' \<notin> set (trim (form_email f)) \<or>
          \<not> emailRe (trim (form_email f)) \<or> dataNascimento f = [] \<longrightarrow>
            handleSubmit emailRe (f, v, b) = (f\<lparr>errors := field_errors emailRe f\<rparr>, v, b)) \<and>
         (form_nome f = [] \<longrightarrow>
            handleSubmit emailRe (f, v, b) = (f\<lparr>errors := field_errors emailRe f\<rparr>, v, b) \<and>
            field_errors emailRe f Key_nome = Some Nome_obrigatorio) \<and>
         (form_email f = [] \<or> trim (form_email f) = [] \<or>
          CHR ''@'' \<notin> set (trim (form_email f)) \<or> \<not> emailRe (trim (form_email f)) \<longrightarrow>
            handleSubmit emailRe (f, v, b) = (f\<lparr>errors := field_errors emailRe f\<rparr>, v, b) \<and>
            field_errors emailRe f Key_email = Some Email_invalido)"
proof (intro conjI impI)
  assume "trim (form_nome f) = [] \<or> 100 < length (trim (form_nome f)) \<or>
          trim (form_email f) = [] \<or> CHR ''@'' \<notin> set (trim (form_email f)) \<or>
          \<not> emailRe (trim (form_email f)) \<or> dataNascimento f = []"
  then have "\<not> fst (validateForm emailRe f)"
    using at [of "trim (form_email f)"] by (auto simp: validateForm_fst)
  then show "handleSubmit emailRe (f, v, b) = (f\<lparr>errors := field_errors emailRe f\<rparr>, v, b)"
    by (rule handleSubmit_invalid)
next
  assume "form_nome f = []"
  then have t: "trim (form_nome f) = []" by (simp add: trim_Nil)
  then have "\<not> fst (validateForm emailRe f)"
    by (simp add: validateForm_fst)
  then show "handleSubmit emailRe (f, v, b) = (f\<lparr>errors := field_errors emailRe f\<rparr>, v, b)"
    by (rule handleSubmit_invalid)
  from t show "field_errors emailRe f Key_nome = Some Nome_obrigatorio"
    by (simp add: field_errors_def)
next
  assume "form_email f = [] \<or> trim (form_email f) = [] \<or>
          CHR ''@'' \<notin> set (trim (form_email f)) \<or> \<not> emailRe (trim (form_email f))"
  then have n: "\<not> emailRe (trim (form_email f))"
    using at [of "trim (form_email f)"] by (auto simp: trim_Nil)
  then have "\<not> fst (validateForm emailRe f)"
    by (simp add: validateForm_fst)
  then show "handleSubmit emailRe (f, v, b) = (f\<lparr>errors := field_errors emailRe f\<rparr>, v, b)"
    by (rule handleSubmit_invalid)
  from n show "field_errors emailRe f Key_email = Some Email_invalido"
    by (simp add: field_errors_def)
qed

lemma sample_emailRe_at: "sample_emailRe s \<Longrightarrow> CHR ''@'' \<in> set s"
  by (simp add: sample_emailRe_def)

lemma trim_plain:
  "trim ''Carla'' = ''Carla''" "trim ''not-an-email'' = ''not-an-email''"
  "trim ''carla@example.com'' = ''carla@example.com''"
  by (simp_all add: trim_def trimStart_def trimEnd_def isWhiteSpace_def)

text \<open>
  The empty name, the empty email and "not-an-email", each with the other fields good:
  one message, for the bad field, and nothing sent.
\<close>

theorem submit_invalid_witness:
  "form_nome f_empty = [] \<and>
   handleSubmit sample_emailRe (f_empty, v_open, b_ana) =
     (f_empty\<lparr>errors := field_errors sample_emailRe f_empty\<rparr>, v_open, b_ana) \<and>
   field_errors sample_emailRe f_empty Key_nome = Some Nome_obrigatorio \<and>
   field_errors sample_emailRe f_empty Key_email = None \<and>
   field_errors sample_emailRe f_empty Key_data_nascimento = None \<and>
   form_email f_no_email = [] \<and>
   handleSubmit sample_emailRe (f_no_email, v_open, b_ana) =
     (f_no_email\<lparr>errors := field_errors sample_emailRe f_no_email\<rparr>, v_open, b_ana) \<and>
   field_errors sample_emailRe f_no_email Key_email = Some Email_invalido \<and>
   field_errors sample_emailRe f_no_email Key_nome = None \<and>
   form_email f_bad_email = ''not-an-email'' \<and>
   handleSubmit sample_emailRe (f_bad_email, v_open, b_ana) =
     (f_bad_email\<lparr>errors := field_errors sample_emailRe f_bad_email\<rparr>, v_open, b_ana) \<and>
   field_errors sample_emailRe f_bad_email Key_email = Some Email_invalido"
proof -
  have n: "form_nome f_empty = []"
    by (simp add: f_empty_def)
  have e: "form_email f_no_email = []" "form_email f_bad_email = ''not-an-email''"
    by (simp_all add: f_no_email_def f_bad_email_def)
  have b: "CHR ''@'' \<notin> set (trim (form_email f_bad_email))"
    by (simp add: f_bad_email_def trim_plain)
  have 1: "field_errors sample_emailRe f_empty Key_email = None"
    "field_errors sample_emailRe f_empty Key_data_nascimento = None"
    by (simp_all add: field_errors_def f_empty_def trim_plain sample_emailRe_def)
  have 2: "field_errors sample_emailRe f_no_email Key_nome = None"
    by (simp add: field_errors_def f_no_email_def trim_plain)
  from n e b 1 2 show ?thesis
    using submit_invalid [of sample_emailRe f_empty v_open b_ana, OF sample_emailRe_at]
      submit_invalid [of sample_emailRe f_no_email v_open b_ana, OF sample_emailRe_at]
      submit_invalid [of sample_emailRe f_bad_email v_open b_ana, OF sample_emailRe_at]
    by simp
qed

lemma trim_long: "trim (''Ana'' @ replicate n (CHR '' '')) = ''Ana''"
proof -
  have "dropWhile isWhiteSpace (replicate n (CHR '' '') @ ''anA'') = ''anA''"
    by (subst dropWhile_append2) (simp_all add: isWhiteSpace_def)
  then show ?thesis
    by (simp add: trim_def trimStart_def trimEnd_def isWhiteSpace_def)
qed

text \<open>
  A name of 101 code units, "Ana" and 98 spaces, passes: its trimmed length is 3. The
  request is sent, no message is stored for the name, and the form closes.
\<close>

theorem name_over_100_counterexample:
  "100 < length (form_nome f_long) \<and>
   requests (snd (snd (handleSubmit sample_emailRe (f_long, v_open, b_ana)))) \<noteq> requests b_ana \<and>
   errors (fst (handleSubmit sample_emailRe (f_long, v_open, b_ana))) Key_nome = None \<and>
   \<not> isFormOpen (fst (snd (handleSubmit sample_emailRe (f_long, v_open, b_ana))))"
proof -
  have n: "trim (form_nome f_long) = ''Ana''"
    using trim_long [of 98] by (simp add: f_long_def)
  have e: "trim (form_email f_long) = ''carla@example.com''"
    by (simp add: f_long_def trim_def trimStart_def trimEnd_def isWhiteSpace_def)
  have d: "dataNascimento f_long \<noteq> []"
    by (simp add: f_long_def)
  have ok: "fst (validateForm sample_emailRe f_long)"
    by (simp add: validateForm_fst n e d sample_emailRe_def)
  have ed: "editingAluno v_open = None"
    by (simp add: v_open_def)
  have r: "requests b_ana = []"
    by (simp add: b_ana_def)
  have h: "handleSubmit sample_emailRe (f_long, v_open, b_ana) =
     (f_long\<lparr>errors := Map.empty, isLoading := False\<rparr>,
      onOpenChange False (fst (handleCreate (submitted_data f_long) (v_open, b_ana))),
      snd (handleCreate (submitted_data f_long) (v_open, b_ana)))"
    by (simp only: handleSubmit_valid [OF ok] onSubmit_def ed fst_conv) simp
  have 1: "100 < length (form_nome f_long)"
    by (simp add: f_long_def)
  have 2: "requests (snd (handleCreate (submitted_data f_long) (v_open, b_ana))) \<noteq> requests b_ana"
    by (simp only: handleCreate_requests r) simp
  have 3: "\<not> isFormOpen (onOpenChange False (fst (handleCreate (submitted_data f_long) (v_open, b_ana))))"
    by (simp add: onOpenChange_def Let_def)
  from 1 2 3 show ?thesis
    by (simp only: h fst_conv snd_conv) simp
qed

lemma handleCreate_fail:
  "fst (request_insert (create_payload d (auth_uid b)) b) = Some e \<Longrightarrow>
   handleCreate d (v, b) =
     (v\<lparr>toasts := toasts v @ [Erro_ao_criar_aluno e]\<rparr>,
      snd (request_insert (create_payload d (auth_uid b)) b))"
  by (cases "request_insert (create_payload d (auth_uid b)) b") simp

lemma handleUpdate_fail:
  "editingAluno v = Some a \<Longrightarrow>
   fst (request_update (update_payload d) (aluno_id a) b) = Some e \<Longrightarrow>
   handleUpdate d (v, b) =
     (v\<lparr>toasts := toasts v @ [Erro_ao_atualizar_aluno e]\<rparr>,
      snd (request_update (update_payload d) (aluno_id a) b))"
  by (cases "request_update (update_payload d) (aluno_id a) b") simp

lemma isFormOpen_onOpenChange: "\<not> isFormOpen (onOpenChange False x)"
  by (simp add: onOpenChange_def Let_def)

lemma toasts_onOpenChange: "toasts (onOpenChange opn x) = toasts x"
  by (simp add: onOpenChange_def Let_def)

lemma alunos_onOpenChange: "alunos (onOpenChange opn x) = alunos x"
  by (simp add: onOpenChange_def Let_def)

text \<open>
  C3, as the code has it. After a submission that passes validation the form is closed
  and the loading flag is down, whatever the request gave: the handlers catch the error
  of their request, so the form does not learn of it. A failed request is shown as a
  destructive notification carrying the error, and the list in memory stays as it was.
\<close>

theorem submit_closes_form:
  "fst (validateForm emailRe f) \<longrightarrow>
     \<not> isFormOpen (fst (snd (handleSubmit emailRe (f, v, b)))) \<and>
     \<not> isLoading (fst (handleSubmit emailRe (f, v, b))) \<and>
     (\<forall>e. editingAluno v = None \<longrightarrow>
          fst (request_insert (create_payload (submitted_data f) (auth_uid b)) b) = Some e \<longrightarrow>
          toasts (fst (snd (handleSubmit emailRe (f, v, b)))) = toasts v @ [Erro_ao_criar_aluno e] \<and>
          alunos (fst (snd (handleSubmit emailRe (f, v, b)))) = alunos v) \<and>
     (\<forall>a e. editingAluno v = Some a \<longrightarrow>
          fst (request_update (update_payload (submitted_data f)) (aluno_id a) b) = Some e \<longrightarrow>
          toasts (fst (snd (handleSubmit emailRe (f, v, b)))) = toasts v @ [Erro_ao_atualizar_aluno e] \<and>
          alunos (fst (snd (handleSubmit emailRe (f, v, b)))) = alunos v)"
proof
  assume ok: "fst (validateForm emailRe f)"
  note h = handleSubmit_valid [OF ok, of v b]
  have 1: "\<not> isFormOpen (fst (snd (handleSubmit emailRe (f, v, b))))"
    by (simp only: h fst_conv snd_conv isFormOpen_onOpenChange) simp
  have 2: "\<not> isLoading (fst (handleSubmit emailRe (f, v, b)))"
    by (simp only: h fst_conv) simp
  have 3: "toasts (fst (snd (handleSubmit emailRe (f, v, b)))) = toasts v @ [Erro_ao_criar_aluno e] \<and>
          alunos (fst (snd (handleSubmit emailRe (f, v, b)))) = alunos v"
    if "editingAluno v = None"
      "fst (request_insert (create_payload (submitted_data f) (auth_uid b)) b) = Some e" for e
    using that
    by (simp only: h fst_conv snd_conv toasts_onOpenChange alunos_onOpenChange onSubmit_def
          handleCreate_fail) simp
  have 4: "toasts (fst (snd (handleSubmit emailRe (f, v, b)))) = toasts v @ [Erro_ao_atualizar_aluno e] \<and>
          alunos (fst (snd (handleSubmit emailRe (f, v, b)))) = alunos v"
    if "editingAluno v = Some a"
      "fst (request_update (update_payload (submitted_data f)) (aluno_id a) b) = Some e" for a e
    using that
    by (simp only: h fst_conv snd_conv toasts_onOpenChange alunos_onOpenChange onSubmit_def
          handleUpdate_fail) simp
  from 1 2 3 4
  show "\<not> isFormOpen (fst (snd (handleSubmit emailRe (f, v, b)))) \<and>
     \<not> isLoading (fst (handleSubmit emailRe (f, v, b))) \<and>
     (\<forall>e. editingAluno v = None \<longrightarrow>
          fst (request_insert (create_payload (submitted_data f) (auth_uid b)) b) = Some e \<longrightarrow>
          toasts (fst (snd (handleSubmit emailRe (f, v, b)))) = toasts v @ [Erro_ao_criar_aluno e] \<and>
          alunos (fst (snd (handleSubmit emailRe (f, v, b)))) = alunos v) \<and>
     (\<forall>a e. editingAluno v = Some a \<longrightarrow>
          fst (request_update (update_payload (submitted_data f)) (aluno_id a) b) = Some e \<longrightarrow>
          toasts (fst (snd (handleSubmit emailRe (f, v, b)))) = toasts v @ [Erro_ao_atualizar_aluno e] \<and>
          alunos (fst (snd (handleSubmit emailRe (f, v, b)))) = alunos v)"
    by blast
qed

lemma f_dup_valid: "fst (validateForm sample_emailRe f_dup)"
  by (simp add: validateForm_fst f_dup_def sample_emailRe_def trim_def trimStart_def trimEnd_def
        isWhiteSpace_def)

lemma f_dup_data:
  "submitted_data f_dup =
     \<lparr>fd_nome = ''Ana Maria'', fd_email = ''a.lima@example.com'', fd_data_nascimento = ''2012-03-09''\<rparr>"
  by (simp add: submitted_data_def f_dup_def trim_def trimStart_def trimEnd_def isWhiteSpace_def)

lemma insert_dup_fails:
  "fst (request_insert (create_payload (submitted_data f_dup) (auth_uid b_ana)) b_ana) =
     Some UniqueViolation"
  by (simp add: f_dup_data request_insert_def insert_alunos_def create_payload_def b_ana_def
        ana_def alunos_insert_check_def sql_eq_def is_true_def Let_def)

lemma update_dup_fails:
  "fst (request_update (update_payload (submitted_data f_dup)) (aluno_id bruno) b_two) =
     Some UniqueViolation"
  by (simp add: f_dup_data request_update_def update_alunos_def update_payload_def b_two_def
        ana_def bruno_def update_row_def update_target_def alunos_select_using_def
        alunos_update_using_def apply_payload_def update_updated_at_column_def
        sql_eq_def is_true_def Let_def)

text \<open>
  A create with the email of an existing record: the insert fails on the unique index,
  and the form, open before, is closed after.
\<close>

theorem failed_submit_counterexample:
  "isFormOpen v_open \<and>
   fst (request_insert (create_payload (submitted_data f_dup) (auth_uid b_ana)) b_ana) =
     Some UniqueViolation \<and>
   \<not> isFormOpen (fst (snd (handleSubmit sample_emailRe (f_dup, v_open, b_ana))))"
proof -
  have "\<not> isFormOpen (fst (snd (handleSubmit sample_emailRe (f_dup, v_open, b_ana))))"
    by (simp only: handleSubmit_valid [OF f_dup_valid] fst_conv snd_conv isFormOpen_onOpenChange)
      simp
  moreover have "isFormOpen v_open"
    by (simp add: v_open_def)
  ultimately show ?thesis
    using insert_dup_fails by simp
qed

text \<open>A failed create and a failed update, both leaving the form closed.\<close>

theorem submit_closes_form_witness:
  "fst (validateForm sample_emailRe f_dup) \<and>
   \<not> isFormOpen (fst (snd (handleSubmit sample_emailRe (f_dup, v_open, b_ana)))) \<and>
   toasts (fst (snd (handleSubmit sample_emailRe (f_dup, v_open, b_ana)))) =
     [Erro_ao_criar_aluno UniqueViolation] \<and>
   \<not> isFormOpen (fst (snd (handleSubmit sample_emailRe (f_dup, v_edit, b_two)))) \<and>
   toasts (fst (snd (handleSubmit sample_emailRe (f_dup, v_edit, b_two)))) =
     [Erro_ao_atualizar_aluno UniqueViolation]"
proof -
  have c: "editingAluno v_open = None" "toasts v_open = []"
    by (simp_all add: v_open_def)
  have u: "editingAluno v_edit = Some bruno" "toasts v_edit = []"
    by (simp_all add: v_edit_def)
  show ?thesis
    using submit_closes_form [of sample_emailRe f_dup v_open b_ana]
      submit_closes_form [of sample_emailRe f_dup v_edit b_two]
      f_dup_valid insert_dup_fails update_dup_fails c u
    by simp
qed

text \<open>
  C10. A submission that passes validation sends, as the first new request, the insert
  (or, when a record is being edited, the update) whose name and email are the trimmed
  input fields; only the follow-up select comes after it. A name made of white space
  alone is trimmed to the empty string before the length check, so it fails validation
  with the name-required message and nothing is sent.
\<close>

theorem submit_sends_trimmed:
  "(fst (validateForm emailRe f) \<longrightarrow>
      (\<exists>rest. requests (snd (snd (handleSubmit emailRe (f, v, b)))) =
                requests b @
                (case editingAluno v of
                   None \<Rightarrow> Insert_alunos (create_payload (submitted_data f) (auth_uid b))
                 | Some a \<Rightarrow> Update_alunos (update_payload (submitted_data f)) (aluno_id a)) # rest \<and>
              set rest \<subseteq> {Select_alunos}) \<and>
      p_nome (create_payload (submitted_data f) (auth_uid b)) = Some (trim (form_nome f)) \<and>
      p_email (create_payload (submitted_data f) (auth_uid b)) = Some (trim (form_email f)) \<and>
      p_nome (update_payload (submitted_data f)) = Some (trim (form_nome f)) \<and>
      p_email (update_payload (submitted_data f)) = Some (trim (form_email f))) \<and>
   ((\<forall>c \<in> set (form_nome f). isWhiteSpace c) \<longrightarrow>
      handleSubmit emailRe (f, v, b) = (f\<lparr>errors := field_errors emailRe f\<rparr>, v, b) \<and>
      field_errors emailRe f Key_nome = Some Nome_obrigatorio)"
proof (intro conjI impI)
  assume ok: "fst (validateForm emailRe f)"
  note h = handleSubmit_valid [OF ok, of v b]
  show "\<exists>rest. requests (snd (snd (handleSubmit emailRe (f, v, b)))) =
                requests b @
                (case editingAluno v of
                   None \<Rightarrow> Insert_alunos (create_payload (submitted_data f) (auth_uid b))
                 | Some a \<Rightarrow> Update_alunos (update_payload (submitted_data f)) (aluno_id a)) # rest \<and>
              set rest \<subseteq> {Select_alunos}"
  proof (cases "editingAluno v")
    case None
    then have os: "onSubmit (submitted_data f) (v, b) = handleCreate (submitted_data f) (v, b)"
      by (simp add: onSubmit_def)
    have "requests (snd (snd (handleSubmit emailRe (f, v, b)))) =
        requests b @ Insert_alunos (create_payload (submitted_data f) (auth_uid b)) #
          (if fst (request_insert (create_payload (submitted_data f) (auth_uid b)) b) = None
           then [Select_alunos] else [])"
      by (simp only: h snd_conv os handleCreate_requests)
    with None show ?thesis by (auto simp del: handleSubmit.simps)
  next
    case (Some a)
    then have os: "onSubmit (submitted_data f) (v, b) = handleUpdate (submitted_data f) (v, b)"
      by (simp add: onSubmit_def)
    have "requests (snd (snd (handleSubmit emailRe (f, v, b)))) =
        requests b @ Update_alunos (update_payload (submitted_data f)) (aluno_id a) #
          (if fst (request_update (update_payload (submitted_data f)) (aluno_id a) b) = None
           then [Select_alunos] else [])"
      by (simp only: h snd_conv os handleUpdate_requests [OF Some])
    with Some show ?thesis by (auto simp del: handleSubmit.simps)
  qed
next
  show "p_nome (create_payload (submitted_data f) (auth_uid b)) = Some (trim (form_nome f))"
    by (simp add: create_payload_def submitted_data_def)
next
  show "p_email (create_payload (submitted_data f) (auth_uid b)) = Some (trim (form_email f))"
    by (simp add: create_payload_def submitted_data_def)
next
  show "p_nome (update_payload (submitted_data f)) = Some (trim (form_nome f))"
    by (simp add: update_payload_def submitted_data_def)
next
  show "p_email (update_payload (submitted_data f)) = Some (trim (form_email f))"
    by (simp add: update_payload_def submitted_data_def)
next
  assume "\<forall>c \<in> set (form_nome f). isWhiteSpace c"
  then have t: "trim (form_nome f) = []" by (rule trim_all_white)
  then have "\<not> fst (validateForm emailRe f)"
    by (simp add: validateForm_fst)
  then show "handleSubmit emailRe (f, v, b) = (f\<lparr>errors := field_errors emailRe f\<rparr>, v, b)"
    by (rule handleSubmit_invalid)
  from t show "field_errors emailRe f Key_nome = Some Nome_obrigatorio"
    by (simp add: field_errors_def)
qed

lemma f_padded_valid: "fst (validateForm sample_emailRe f_padded)"
  by (simp add: validateForm_fst f_padded_def sample_emailRe_def trim_def trimStart_def
        trimEnd_def isWhiteSpace_def)

lemma f_padded_data:
  "submitted_data f_padded =
     \<lparr>fd_nome = ''Carla'', fd_email = ''carla@example.com'', fd_data_nascimento = ''2012-03-09''\<rparr>"
  by (simp add: submitted_data_def f_padded_def trim_def trimStart_def trimEnd_def
        isWhiteSpace_def)

text \<open>The padded name "  Carla " goes out as "Carla"; three spaces are rejected.\<close>

theorem submit_sends_trimmed_witness:
  "fst (validateForm sample_emailRe f_padded) \<and>
   form_nome f_padded = ''  Carla '' \<and>
   hd (requests (snd (snd (handleSubmit sample_emailRe (f_padded, v_open, b_ana))))) =
     Insert_alunos \<lparr>p_id = None, p_nome = Some ''Carla'', p_email = Some ''carla@example.com'',
       p_data_nascimento = Some ''2012-03-09'', p_created_by = Some 7, p_created_at = None,
       p_updated_at = None\<rparr> \<and>
   form_nome f_blank = ''   '' \<and> list_all isWhiteSpace (form_nome f_blank) \<and>
   errors (fst (handleSubmit sample_emailRe (f_blank, v_open, b_ana))) Key_nome =
     Some Nome_obrigatorio"
proof -
  have w: "\<forall>c \<in> set (form_nome f_blank). isWhiteSpace c"
    by (simp add: f_blank_def isWhiteSpace_def)
  have e: "editingAluno v_open = None" "requests b_ana = []" "auth_uid b_ana = Some 7"
    by (simp_all add: v_open_def b_ana_def)
  have n: "form_nome f_padded = ''  Carla ''"
    by (simp add: f_padded_def)
  from submit_sends_trimmed [of sample_emailRe f_padded v_open b_ana] f_padded_valid
  obtain rest where "requests (snd (snd (handleSubmit sample_emailRe (f_padded, v_open, b_ana)))) =
      Insert_alunos (create_payload (submitted_data f_padded) (Some 7)) # rest"
    by (auto simp: e)
  then have 1: "hd (requests (snd (snd (handleSubmit sample_emailRe (f_padded, v_open, b_ana))))) =
     Insert_alunos \<lparr>p_id = None, p_nome = Some ''Carla'', p_email = Some ''carla@example.com'',
       p_data_nascimento = Some ''2012-03-09'', p_created_by = Some 7, p_created_at = None,
       p_updated_at = None\<rparr>"
    by (simp add: f_padded_data create_payload_def)
  from submit_sends_trimmed [of sample_emailRe f_blank v_open b_ana] w
  have 2: "errors (fst (handleSubmit sample_emailRe (f_blank, v_open, b_ana))) Key_nome =
     Some Nome_obrigatorio"
    by simp
  have b: "form_nome f_blank = ''   ''"
    by (simp add: f_blank_def)
  from w have l: "list_all isWhiteSpace (form_nome f_blank)"
    by (simp add: list_all_iff)
  from f_padded_valid n 1 b l 2 show ?thesis by simp
qed

section \<open>Properties of the record store\<close>

lemma insert_alunos_duplicate:
  "alunos_insert_check uid (p_created_by p) \<Longrightarrow> p_nome p = Some n \<Longrightarrow> p_email p = Some e \<Longrightarrow>
   p_data_nascimento p = Some d \<Longrightarrow> e \<in> set (map email tbl) \<Longrightarrow>
   insert_alunos uid now gen p tbl = Inl UniqueViolation"
  by (auto simp: insert_alunos_def alunos_insert_check_def sql_eq_def is_true_def Let_def
        split: option.splits)

text \<open>
  C8. A create by a signed-in caller, with the backend in reach, whose email is the email
  of a record already in the table (of whichever owner) fails on the unique index: the
  handler shows the uniqueness error as a destructive notification and does nothing else,
  so the list in memory (\<open>alunos\<close>, \<open>filteredAlunos\<close>) and the table are as before.
\<close>

theorem create_duplicate_email:
  assumes "online b" and "auth_uid b = Some u"
    and "fd_email d \<in> set (map email (public_alunos b))"
  shows "handleCreate d (v, b) =
           (v\<lparr>toasts := toasts v @ [Erro_ao_criar_aluno UniqueViolation]\<rparr>,
            b\<lparr>requests := requests b @ [Insert_alunos (create_payload d (auth_uid b))]\<rparr>)"
proof -
  have chk: "alunos_insert_check (auth_uid b) (p_created_by (create_payload d (auth_uid b)))"
    using assms(2) by (simp add: alunos_insert_check_def create_payload_def sql_eq_def is_true_def)
  have "insert_alunos (auth_uid b) (tx_now b) (gen_random_uuid b)
          (create_payload d (auth_uid b)) (public_alunos b) = Inl UniqueViolation"
    by (rule insert_alunos_duplicate [OF chk _ _ _ assms(3)])
      (simp_all add: create_payload_def)
  then have "request_insert (create_payload d (auth_uid b)) b =
      (Some UniqueViolation,
       b\<lparr>requests := requests b @ [Insert_alunos (create_payload d (auth_uid b))]\<rparr>)"
    using assms(1) by (simp add: request_insert_def Let_def)
  then show ?thesis by simp
qed

text \<open>Identity 8 submits the email of Ana, a record of identity 7.\<close>

theorem create_duplicate_email_witness:
  "online b_other \<and> auth_uid b_other = Some 8 \<and> created_by ana = 7 \<and>
   fd_email (submitted_data f_dup) \<in> set (map email (public_alunos b_other)) \<and>
   alunos (fst (handleCreate (submitted_data f_dup) (v_edit, b_other))) = alunos v_edit \<and>
   filteredAlunos (fst (handleCreate (submitted_data f_dup) (v_edit, b_other))) = filteredAlunos v_edit \<and>
   toasts (fst (handleCreate (submitted_data f_dup) (v_edit, b_other))) =
     [Erro_ao_criar_aluno UniqueViolation] \<and>
   public_alunos (snd (handleCreate (submitted_data f_dup) (v_edit, b_other))) = [ana]"
proof -
  have 1: "online b_other" "auth_uid b_other = Some 8" "public_alunos b_other = [ana]"
    by (simp_all add: b_other_def)
  have 2: "fd_email (submitted_data f_dup) \<in> set (map email (public_alunos b_other))"
    by (simp add: 1 f_dup_data ana_def)
  have 3: "created_by ana = 7" "toasts v_edit = []"
    by (simp_all add: ana_def v_edit_def)
  show ?thesis
    using create_duplicate_email [OF 1(1) 1(2) 2, of v_edit] 1 2 3
    by (simp del: handleCreate.simps)
qed

lemma sorted_desc_order:
  "sorted_wrt (\<lambda>x y. created_at y \<le> created_at x) (order_created_at_desc rs)"
proof -
  have "sorted (map created_at (sort_key created_at rs))"
    by (rule sorted_sort_key)
  then have "sorted_wrt (\<lambda>x y. created_at x \<le> created_at y) (sort_key created_at rs)"
    by (simp add: sorted_wrt_map)
  then show ?thesis
    by (simp add: order_created_at_desc_def sorted_wrt_rev)
qed

lemma mset_order: "mset (order_created_at_desc rs) = mset rs"
  by (simp add: order_created_at_desc_def)

lemma select_using_iff: "alunos_select_using uid r \<longleftrightarrow> uid = Some (created_by r)"
  by (auto simp: alunos_select_using_def sql_eq_def is_true_def split: option.splits)

text \<open>
  C9. The list query gives back the records whose creator is the caller, all of them and
  each as often as it is in the table, latest creation first; when the backend is in
  reach, \<^verbatim>\<open>fetchAlunos\<close> puts exactly this list into \<open>alunos\<close>.
\<close>

theorem list_owned_desc:
  "mset (select_alunos uid tbl) = mset (filter (\<lambda>r. uid = Some (created_by r)) tbl) \<and>
   sorted_wrt (\<lambda>x y. created_at y \<le> created_at x) (select_alunos uid tbl) \<and>
   (online b \<longrightarrow>
      fetchAlunos (v, b) =
        (v\<lparr>alunos := select_alunos (auth_uid b) (public_alunos b), loading := False\<rparr>,
         b\<lparr>requests := requests b @ [Select_alunos]\<rparr>))"
proof (intro conjI impI)
  have "alunos_select_using uid = (\<lambda>r. uid = Some (created_by r))"
    by (rule ext) (rule select_using_iff)
  then show "mset (select_alunos uid tbl) = mset (filter (\<lambda>r. uid = Some (created_by r)) tbl)"
    by (simp add: select_alunos_def mset_order)
  show "sorted_wrt (\<lambda>x y. created_at y \<le> created_at x) (select_alunos uid tbl)"
    by (simp add: select_alunos_def sorted_desc_order)
next
  assume "online b"
  then show "fetchAlunos (v, b) =
        (v\<lparr>alunos := select_alunos (auth_uid b) (public_alunos b), loading := False\<rparr>,
         b\<lparr>requests := requests b @ [Select_alunos]\<rparr>)"
    by (simp add: request_select_def Let_def)
qed

text \<open>Identity 7 gets Bruno before Ana; identity 8 gets nothing.\<close>

theorem list_owned_desc_witness:
  "online b_two \<and>
   alunos (fst (fetchAlunos (v_open, b_two))) = [bruno, ana] \<and>
   alunos (fst (fetchAlunos (v_open, b_two\<lparr>auth_uid := Some 8\<rparr>))) = []"
proof -
  have o: "online b_two" "online (b_two\<lparr>auth_uid := Some 8\<rparr>)"
    by (simp_all add: b_two_def)
  have 1: "select_alunos (auth_uid b_two) (public_alunos b_two) = [bruno, ana]"
    by (simp add: select_alunos_def order_created_at_desc_def b_two_def select_using_iff
          ana_def bruno_def)
  have 2: "select_alunos (auth_uid (b_two\<lparr>auth_uid := Some 8\<rparr>))
             (public_alunos (b_two\<lparr>auth_uid := Some 8\<rparr>)) = []"
    by (simp add: select_alunos_def order_created_at_desc_def b_two_def select_using_iff
          ana_def bruno_def)
  show ?thesis
    using list_owned_desc [of "auth_uid b_two" "public_alunos b_two" b_two v_open]
      list_owned_desc [of "Some 8" "public_alunos b_two" "b_two\<lparr>auth_uid := Some 8\<rparr>" v_open]
      o 1 2
    by (simp del: fetchAlunos.simps)
qed

lemma update_using_iff: "alunos_update_using uid r \<longleftrightarrow> uid = Some (created_by r)"
  by (auto simp: alunos_update_using_def sql_eq_def is_true_def split: option.splits)

lemma delete_using_iff: "alunos_delete_using uid r \<longleftrightarrow> uid = Some (created_by r)"
  by (auto simp: alunos_delete_using_def sql_eq_def is_true_def split: option.splits)

lemma insert_check_iff: "alunos_insert_check uid c \<longleftrightarrow> (\<exists>u. uid = Some u \<and> c = Some u)"
  by (auto simp: alunos_insert_check_def sql_eq_def is_true_def split: option.splits)

lemma update_target_iff:
  "update_target uid k r \<longleftrightarrow> uid = Some (created_by r) \<and> aluno_id r = k"
  by (auto simp: update_target_def select_using_iff update_using_iff)

lemma delete_target_iff:
  "delete_target uid k r \<longleftrightarrow> uid = Some (created_by r) \<and> aluno_id r = k"
  by (auto simp: delete_target_def select_using_iff delete_using_iff)

text \<open>An update that goes through leaves the rows of the other owners where they are.\<close>

lemma update_rows_foreign:
  "\<not> list_ex (\<lambda>r. \<not> alunos_update_using uid r)
       (map (update_row uid now p k) (filter (update_target uid k) tbl)) \<Longrightarrow>
   filter (\<lambda>x. uid \<noteq> Some (created_by x)) (map (update_row uid now p k) tbl) =
   filter (\<lambda>x. uid \<noteq> Some (created_by x)) tbl"
proof (induction tbl)
  case Nil
  then show ?case by simp
next
  case (Cons x xs)
  show ?case
  proof (cases "update_target uid k x")
    case True
    with Cons.prems have "alunos_update_using uid (update_row uid now p k x)"
      by simp
    then have "uid = Some (created_by (update_row uid now p k x))"
      by (simp add: update_using_iff)
    moreover from True have "uid = Some (created_by x)"
      by (simp add: update_target_iff)
    moreover from Cons.prems True have "\<not> list_ex (\<lambda>r. \<not> alunos_update_using uid r)
       (map (update_row uid now p k) (filter (update_target uid k) xs))"
      by simp
    then have "filter (\<lambda>x. uid \<noteq> Some (created_by x)) (map (update_row uid now p k) xs) =
       filter (\<lambda>x. uid \<noteq> Some (created_by x)) xs"
      by (rule Cons.IH)
    ultimately show ?thesis
      by simp
  next
    case False
    then have ur: "update_row uid now p k x = x"
      by (simp add: update_row_def)
    from Cons.prems False have "\<not> list_ex (\<lambda>r. \<not> alunos_update_using uid r)
       (map (update_row uid now p k) (filter (update_target uid k) xs))"
      by simp
    then have ih: "filter (\<lambda>x. uid \<noteq> Some (created_by x)) (map (update_row uid now p k) xs) =
       filter (\<lambda>x. uid \<noteq> Some (created_by x)) xs"
      by (rule Cons.IH)
    show ?thesis
      by (simp only: list.map filter.simps ur ih)
  qed
qed

lemma update_alunos_foreign:
  "update_alunos uid now p k tbl = Inr tbl' \<Longrightarrow>
   filter (\<lambda>x. uid \<noteq> Some (created_by x)) tbl' = filter (\<lambda>x. uid \<noteq> Some (created_by x)) tbl"
  by (auto simp: update_alunos_def Let_def update_rows_foreign split: if_splits)

text \<open>
  C1. Let \<open>r\<close> be a row of the table whose creator is not the caller (another identity,
  or no authenticated caller at all). Then the caller's select does not return \<open>r\<close>; no
  update and no delete of the caller has \<open>r\<close> among its target rows; an update of the
  caller that goes through leaves \<open>r\<close>, and all rows that are not the caller's, as they
  were; a delete of the caller leaves \<open>r\<close> in the table; and an insert of the caller
  that names the creator of \<open>r\<close> as creator is refused by the policy.
\<close>

theorem owner_isolation:
  assumes "r \<in> set tbl" and "caller \<noteq> Some (created_by r)"
  shows "r \<notin> set (select_alunos caller tbl) \<and>
         \<not> update_target caller k r \<and>
         (\<forall>tbl'. update_alunos caller now p k tbl = Inr tbl' \<longrightarrow>
            r \<in> set tbl' \<and>
            filter (\<lambda>x. caller \<noteq> Some (created_by x)) tbl' =
            filter (\<lambda>x. caller \<noteq> Some (created_by x)) tbl) \<and>
         \<not> delete_target caller k r \<and>
         r \<in> set (delete_alunos caller k tbl) \<and>
         (p_created_by p = Some (created_by r) \<longrightarrow>
            insert_alunos caller now gen p tbl = Inl RlsViolation)"
proof (intro conjI allI impI)
  have "set (select_alunos caller tbl) = {x \<in> set tbl. caller = Some (created_by x)}"
    by (simp add: select_alunos_def order_created_at_desc_def select_using_iff)
  with assms(2) show "r \<notin> set (select_alunos caller tbl)"
    by simp
  from assms(2) show "\<not> update_target caller k r"
    by (simp add: update_target_iff)
  from assms(2) show nd: "\<not> delete_target caller k r"
    by (simp add: delete_target_iff)
  with assms(1) show "r \<in> set (delete_alunos caller k tbl)"
    by (simp add: delete_alunos_def)
next
  fix tbl'
  assume u: "update_alunos caller now p k tbl = Inr tbl'"
  then show f: "filter (\<lambda>x. caller \<noteq> Some (created_by x)) tbl' =
            filter (\<lambda>x. caller \<noteq> Some (created_by x)) tbl"
    by (rule update_alunos_foreign)
  from assms have "r \<in> set (filter (\<lambda>x. caller \<noteq> Some (created_by x)) tbl)"
    by simp
  with f have "r \<in> set (filter (\<lambda>x. caller \<noteq> Some (created_by x)) tbl')"
    by simp
  then show "r \<in> set tbl'"
    by simp
next
  assume "p_created_by p = Some (created_by r)"
  with assms(2) have "\<not> alunos_insert_check caller (p_created_by p)"
    by (auto simp: insert_check_iff)
  then show "insert_alunos caller now gen p tbl = Inl RlsViolation"
    by (simp add: insert_alunos_def)
qed

text \<open>Identity 8 against Ana, a record of identity 7.\<close>

theorem owner_isolation_witness:
  "ana \<in> set [ana, bruno] \<and> Some 8 \<noteq> Some (created_by ana) \<and>
   ana \<notin> set (select_alunos (Some 8) [ana, bruno]) \<and>
   \<not> update_target (Some 8) (aluno_id ana) ana \<and>
   \<not> delete_target (Some 8) (aluno_id ana) ana \<and>
   ana \<in> set (delete_alunos (Some 8) (aluno_id ana) [ana, bruno]) \<and>
   insert_alunos (Some 8) 30 3 forged_insert [ana, bruno] = Inl RlsViolation"
proof -
  have 1: "ana \<in> set [ana, bruno]" by simp
  have 2: "Some 8 \<noteq> Some (created_by ana)" by (simp add: ana_def)
  have 3: "p_created_by forged_insert = Some (created_by ana)"
    by (simp add: forged_insert_def ana_def)
  show ?thesis
    using owner_isolation [OF 1 2, of "aluno_id ana" 30 forged_insert 3] 2 3
    by simp
qed

lemma same_id_same_row:
  "distinct (map aluno_id tbl) \<Longrightarrow> r \<in> set tbl \<Longrightarrow> x \<in> set tbl \<Longrightarrow>
   aluno_id x = aluno_id r \<Longrightarrow> x = r"
  by (auto simp: distinct_map dest: inj_onD)

lemma no_update_target:
  assumes "distinct (map aluno_id tbl)" and "r \<in> set tbl" and "caller \<noteq> Some (created_by r)"
  shows "\<forall>x \<in> set tbl. \<not> update_target caller (aluno_id r) x"
proof
  fix x
  assume x: "x \<in> set tbl"
  show "\<not> update_target caller (aluno_id r) x"
  proof
    assume t: "update_target caller (aluno_id r) x"
    then have "aluno_id x = aluno_id r" "caller = Some (created_by x)"
      by (simp_all add: update_target_iff)
    moreover from this(1) have "x = r"
      using same_id_same_row [OF assms(1) assms(2) x] by simp
    ultimately show False using assms(3) by simp
  qed
qed

lemma update_alunos_no_target:
  assumes "\<forall>x \<in> set tbl. \<not> update_target caller k x"
  shows "update_alunos caller now p k tbl = Inr tbl"
proof -
  from assms have f: "filter (update_target caller k) tbl = []"
    by (simp add: filter_empty_conv)
  from assms have "map (update_row caller now p k) tbl = map (\<lambda>x. x) tbl"
    by (intro map_cong) (simp_all add: update_row_def)
  then have m: "map (update_row caller now p k) tbl = tbl"
    by simp
  show ?thesis
    by (simp add: update_alunos_def Let_def f m)
qed

lemma delete_alunos_no_target:
  assumes "\<forall>x \<in> set tbl. \<not> update_target caller k x"
  shows "delete_alunos caller k tbl = tbl"
proof -
  from assms have "\<forall>x \<in> set tbl. \<not> delete_target caller k x"
    by (simp add: update_target_iff delete_target_iff)
  then show ?thesis
    by (simp add: delete_alunos_def)
qed

text \<open>
  C2, as the code has it. Of the requests that go against the ownership policy, the store
  rejects the insert of a row with a foreign creator, with the policy error. An update or
  a delete aimed at the id of a record of another identity is not rejected: with the
  backend in reach and ids unique in the table, it has no target row, leaves the table as
  it is and reports no error, and \<^verbatim>\<open>handleUpdate\<close> announces success.
\<close>

theorem foreign_update_delete_silent:
  assumes "online b" and "r \<in> set (public_alunos b)"
    and "auth_uid b \<noteq> Some (created_by r)"
    and "distinct (map aluno_id (public_alunos b))"
  shows "request_update p (aluno_id r) b =
           (None, b\<lparr>requests := requests b @ [Update_alunos p (aluno_id r)]\<rparr>) \<and>
         request_delete (aluno_id r) b =
           (None, b\<lparr>requests := requests b @ [Delete_alunos (aluno_id r)]\<rparr>) \<and>
         (editingAluno v = Some r \<longrightarrow>
            toasts (fst (handleUpdate d (v, b))) = toasts v @ [Aluno_atualizado]) \<and>
         (p_created_by p = Some (created_by r) \<longrightarrow>
            request_insert p b =
              (Some RlsViolation, b\<lparr>requests := requests b @ [Insert_alunos p]\<rparr>))"
proof (intro conjI impI)
  note nt = no_update_target [OF assms(4) assms(2) assms(3)]
  have u: "update_alunos (auth_uid b) (tx_now b) q (aluno_id r) (public_alunos b) =
             Inr (public_alunos b)" for q
    by (rule update_alunos_no_target [OF nt])
  have dl: "delete_alunos (auth_uid b) (aluno_id r) (public_alunos b) = public_alunos b"
    by (rule delete_alunos_no_target [OF nt])
  show ru: "request_update p (aluno_id r) b =
           (None, b\<lparr>requests := requests b @ [Update_alunos p (aluno_id r)]\<rparr>)"
    using assms(1) by (simp add: request_update_def Let_def u)
  show "request_delete (aluno_id r) b =
           (None, b\<lparr>requests := requests b @ [Delete_alunos (aluno_id r)]\<rparr>)"
    using assms(1) by (simp add: request_delete_def Let_def dl)
next
  assume e: "editingAluno v = Some r"
  note nt = no_update_target [OF assms(4) assms(2) assms(3)]
  have "update_alunos (auth_uid b) (tx_now b) (update_payload d) (aluno_id r) (public_alunos b) =
          Inr (public_alunos b)"
    by (rule update_alunos_no_target [OF nt])
  then have "request_update (update_payload d) (aluno_id r) b =
         (None, b\<lparr>requests := requests b @ [Update_alunos (update_payload d) (aluno_id r)]\<rparr>)"
    using assms(1) by (simp add: request_update_def Let_def)
  with e assms(1) show "toasts (fst (handleUpdate d (v, b))) = toasts v @ [Aluno_atualizado]"
    by (simp add: request_select_def Let_def)
next
  assume "p_created_by p = Some (created_by r)"
  with assms(3) have "\<not> alunos_insert_check (auth_uid b) (p_created_by p)"
    by (auto simp: insert_check_iff)
  then have "insert_alunos (auth_uid b) (tx_now b) (gen_random_uuid b) p (public_alunos b) =
      Inl RlsViolation"
    by (simp add: insert_alunos_def)
  with assms(1) show "request_insert p b =
            (Some RlsViolation, b\<lparr>requests := requests b @ [Insert_alunos p]\<rparr>)"
    by (simp add: request_insert_def Let_def)
qed

lemma b_other_facts:
  "online b_other" "ana \<in> set (public_alunos b_other)"
  "auth_uid b_other \<noteq> Some (created_by ana)"
  "distinct (map aluno_id (public_alunos b_other))"
  by (simp_all add: b_other_def ana_def)

text \<open>
  Identity 8 updates and deletes by the id of Ana, a record of identity 7: both requests
  come back without error, and Ana is in the table as before.
\<close>

theorem foreign_update_counterexample:
  "created_by ana = 7 \<and> auth_uid b_other = Some 8 \<and> public_alunos b_other = [ana] \<and>
   fst (request_update (update_payload (submitted_data f_dup)) (aluno_id ana) b_other) = None \<and>
   public_alunos (snd (request_update (update_payload (submitted_data f_dup)) (aluno_id ana) b_other)) = [ana] \<and>
   fst (request_delete (aluno_id ana) b_other) = None \<and>
   public_alunos (snd (request_delete (aluno_id ana) b_other)) = [ana]"
  by (simp add: request_update_def request_delete_def update_alunos_def delete_alunos_def
        update_row_def update_target_iff delete_target_iff b_other_def ana_def Let_def)

text \<open>The same run through the general statement, with the refused insert.\<close>

theorem foreign_update_delete_silent_witness:
  "online b_other \<and> ana \<in> set (public_alunos b_other) \<and>
   auth_uid b_other \<noteq> Some (created_by ana) \<and>
   distinct (map aluno_id (public_alunos b_other)) \<and>
   fst (request_update forged_update (aluno_id ana) b_other) = None \<and>
   public_alunos (snd (request_update forged_update (aluno_id ana) b_other)) = [ana] \<and>
   fst (request_delete (aluno_id ana) b_other) = None \<and>
   toasts (fst (handleUpdate (submitted_data f_dup)
      (v_open\<lparr>editingAluno := Some ana\<rparr>, b_other))) = [Aluno_atualizado] \<and>
   fst (request_insert forged_insert b_other) = Some RlsViolation"
proof -
  have 1: "p_created_by forged_insert = Some (created_by ana)"
    by (simp add: forged_insert_def ana_def)
  have 2: "editingAluno (v_open\<lparr>editingAluno := Some ana\<rparr>) = Some ana"
    "toasts (v_open\<lparr>editingAluno := Some ana\<rparr>) = []"
    by (simp_all add: v_open_def)
  have 3: "public_alunos b_other = [ana]"
    by (simp add: b_other_def)
  show ?thesis
    using foreign_update_delete_silent [OF b_other_facts, of forged_update
        "v_open\<lparr>editingAluno := Some ana\<rparr>" "submitted_data f_dup"]
      foreign_update_delete_silent [OF b_other_facts, of forged_insert
        "v_open\<lparr>editingAluno := Some ana\<rparr>" "submitted_data f_dup"]
      b_other_facts 1 2 3
    by (simp del: handleUpdate.simps)
qed

lemma update_alunos_map:
  "update_alunos uid now p k tbl = Inr tbl' \<Longrightarrow> tbl' = map (update_row uid now p k) tbl"
  by (auto simp: update_alunos_def Let_def split: if_splits)

lemma insert_alunos_Inr:
  "insert_alunos uid now gen p tbl = Inr tbl' \<Longrightarrow>
   \<exists>r. tbl' = tbl @ [r] \<and> updated_at r = (case p_updated_at p of Some t \<Rightarrow> t | None \<Rightarrow> now)"
  by (auto simp: insert_alunos_def Let_def split: if_splits option.splits)

lemma updated_at_update_row:
  "updated_at (update_row uid now p k r) = (if update_target uid k r then now else updated_at r)"
  by (simp add: update_row_def update_updated_at_column_def)

lemma apply_event_stamps:
  assumes "server_stamped e" and "P (ev_time e)" and "\<forall>r \<in> set tbl. P (updated_at r)"
  shows "\<forall>r \<in> set (apply_event e tbl). P (updated_at r)"
proof (cases "ev_op e")
  case (Op_insert p g)
  with assms(1) have n: "p_updated_at p = None"
    by (simp add: server_stamped_def)
  show ?thesis
  proof (cases "insert_alunos (ev_caller e) (ev_time e) g p tbl")
    case (Inl err)
    with Op_insert assms(3) show ?thesis by (simp add: apply_event_def)
  next
    case (Inr t)
    from insert_alunos_Inr [OF Inr] n
    obtain r where "t = tbl @ [r]" "updated_at r = ev_time e" by auto
    with assms(2,3) have "\<forall>x \<in> set t. P (updated_at x)" by auto
    with Op_insert Inr show ?thesis by (simp add: apply_event_def)
  qed
next
  case (Op_update p k)
  show ?thesis
  proof (cases "update_alunos (ev_caller e) (ev_time e) p k tbl")
    case (Inl err)
    with Op_update assms(3) show ?thesis by (simp add: apply_event_def)
  next
    case (Inr t)
    then have "t = map (update_row (ev_caller e) (ev_time e) p k) tbl"
      by (rule update_alunos_map)
    with assms(2,3) have "\<forall>x \<in> set t. P (updated_at x)"
      by (simp add: updated_at_update_row)
    with Op_update Inr show ?thesis by (simp add: apply_event_def)
  qed
next
  case (Op_delete k)
  with assms(3) show ?thesis
    by (simp add: apply_event_def delete_alunos_def)
qed

lemma run_events_stamps:
  "list_all server_stamped evs \<Longrightarrow> \<forall>e \<in> set evs. P (ev_time e) \<Longrightarrow>
   \<forall>r \<in> set tbl. P (updated_at r) \<Longrightarrow>
   \<forall>r \<in> set (run_events evs tbl). P (updated_at r)"
proof (induction evs arbitrary: tbl)
  case Nil
  then show ?case by simp
next
  case (Cons e es)
  from Cons.prems have "\<forall>r \<in> set (apply_event e tbl). P (updated_at r)"
    by (intro apply_event_stamps) simp_all
  with Cons.prems have "\<forall>r \<in> set (run_events es (apply_event e tbl)). P (updated_at r)"
    by (intro Cons.IH) simp_all
  then show ?case by simp
qed

lemma update_target_stamp:
  assumes "update_alunos uid now p k tbl = Inr tbl'"
    and "i < length tbl" and "update_target uid k (tbl ! i)"
  shows "length tbl' = length tbl \<and> updated_at (tbl' ! i) = now"
proof -
  from assms(1) have m: "tbl' = map (update_row uid now p k) tbl"
    by (rule update_alunos_map)
  with assms(2,3) show ?thesis
    by (simp add: updated_at_update_row)
qed

text \<open>
  C5, as the code has it. Every row an update works on gets the current time of the
  server as \<open>updated_at\<close>, whatever the payload says. An insert stores the value of its
  payload when it has one, and the current time otherwise. In a history whose
  operations left \<open>updated_at\<close> to the server and ran at times not later than the time of
  an update, that update gives each row it works on a value not below the one it had;
  when they all ran earlier, a greater one.
\<close>

theorem update_stamps_now:
  "(\<forall>tbl' i. update_alunos uid now p k tbl = Inr tbl' \<longrightarrow> i < length tbl \<longrightarrow>
       update_target uid k (tbl ! i) \<longrightarrow>
       length tbl' = length tbl \<and> updated_at (tbl' ! i) = now) \<and>
   (\<forall>tbl'. insert_alunos uid now gen q tbl = Inr tbl' \<longrightarrow>
       (\<exists>r. tbl' = tbl @ [r] \<and>
            updated_at r = (case p_updated_at q of Some t \<Rightarrow> t | None \<Rightarrow> now))) \<and>
   (list_all server_stamped evs \<and> (\<forall>e \<in> set evs. ev_time e \<le> now) \<longrightarrow>
      (\<forall>tbl' i. update_alunos uid now p k (run_events evs []) = Inr tbl' \<longrightarrow>
         i < length (run_events evs []) \<longrightarrow> update_target uid k (run_events evs [] ! i) \<longrightarrow>
         updated_at (run_events evs [] ! i) \<le> updated_at (tbl' ! i))) \<and>
   (list_all server_stamped evs \<and> (\<forall>e \<in> set evs. ev_time e < now) \<longrightarrow>
      (\<forall>tbl' i. update_alunos uid now p k (run_events evs []) = Inr tbl' \<longrightarrow>
         i < length (run_events evs []) \<longrightarrow> update_target uid k (run_events evs [] ! i) \<longrightarrow>
         updated_at (run_events evs [] ! i) < updated_at (tbl' ! i)))"
proof (intro conjI allI impI)
  fix tbl' i
  assume a: "update_alunos uid now p k tbl = Inr tbl'" "i < length tbl"
    "update_target uid k (tbl ! i)"
  from update_target_stamp [OF a]
  show "length tbl' = length tbl" and "updated_at (tbl' ! i) = now"
    by simp_all
next
  fix tbl'
  assume "insert_alunos uid now gen q tbl = Inr tbl'"
  then show "\<exists>r. tbl' = tbl @ [r] \<and>
            updated_at r = (case p_updated_at q of Some t \<Rightarrow> t | None \<Rightarrow> now)"
    by (rule insert_alunos_Inr)
next
  fix tbl' i
  assume h: "list_all server_stamped evs \<and> (\<forall>e \<in> set evs. ev_time e \<le> now)"
    and a: "update_alunos uid now p k (run_events evs []) = Inr tbl'"
      "i < length (run_events evs [])" "update_target uid k (run_events evs [] ! i)"
  from h have "\<forall>r \<in> set (run_events evs []). updated_at r \<le> now"
    by (intro run_events_stamps) simp_all
  with a(2) have "updated_at (run_events evs [] ! i) \<le> now"
    by simp
  with update_target_stamp [OF a]
  show "updated_at (run_events evs [] ! i) \<le> updated_at (tbl' ! i)"
    by simp
next
  fix tbl' i
  assume h: "list_all server_stamped evs \<and> (\<forall>e \<in> set evs. ev_time e < now)"
    and a: "update_alunos uid now p k (run_events evs []) = Inr tbl'"
      "i < length (run_events evs [])" "update_target uid k (run_events evs [] ! i)"
  from h have "\<forall>r \<in> set (run_events evs []). updated_at r < now"
    by (intro run_events_stamps) simp_all
  with a(2) have "updated_at (run_events evs [] ! i) < now"
    by simp
  with update_target_stamp [OF a]
  show "updated_at (run_events evs [] ! i) < updated_at (tbl' ! i)"
    by simp
qed

lemma b_inserted_eq:
  "b_inserted = b_empty\<lparr>public_alunos :=
       [\<lparr>aluno_id = 4, nome = ''Davi'', email = ''davi@example.com'',
         data_nascimento = ''2013-07-21'', created_by = 7, created_at = 1, updated_at = 100\<rparr>],
     requests := [Insert_alunos forged_insert]\<rparr>"
  by (simp add: b_inserted_def request_insert_def insert_alunos_def insert_check_iff
        forged_insert_def b_empty_def Let_def)

lemma b_updated_rows:
  "public_alunos b_updated =
       [\<lparr>aluno_id = 4, nome = ''Davi Luz'', email = ''davi@example.com'',
         data_nascimento = ''2013-07-21'', created_by = 7, created_at = 1, updated_at = 2\<rparr>]"
  by (simp add: b_updated_def b_inserted_eq request_update_def update_alunos_def
        update_row_def update_target_iff update_using_iff apply_payload_def
        update_updated_at_column_def forged_update_def b_empty_def Let_def)

text \<open>
  At time 1 a client inserts a row with \<open>updated_at = 100\<close>; at time 2 it updates the
  row: the stamp goes from 100 down to 2, under a clock that moved forward.
\<close>

theorem forged_stamp_counterexample:
  "tx_now b_empty = 1 \<and> tx_now (b_inserted\<lparr>tx_now := 2\<rparr>) = 2 \<and>
   map updated_at (public_alunos b_inserted) = [100] \<and>
   map updated_at (public_alunos b_updated) = [2] \<and>
   updated_at (hd (public_alunos b_updated)) < updated_at (hd (public_alunos b_inserted))"
  by (simp add: b_updated_rows) (simp add: b_inserted_eq b_empty_def)

lemma history_run: "run_events history [] = [davi 2]"
  by (simp add: history_def apply_event_def insert_alunos_def insert_check_iff plain_insert_def
        update_alunos_def update_row_def update_target_iff update_using_iff apply_payload_def
        update_updated_at_column_def forged_update_def davi_def Let_def)

lemma history_update:
  "update_alunos (Some 7) 3 forged_update 4 [davi 2] = Inr [davi 3]"
  by (simp add: update_alunos_def update_row_def update_target_iff update_using_iff
        apply_payload_def update_updated_at_column_def forged_update_def davi_def Let_def)

lemma forged_insert_stored:
  "insert_alunos (Some 7) 1 4 forged_insert [] =
     Inr [\<lparr>aluno_id = 4, nome = ''Davi'', email = ''davi@example.com'',
           data_nascimento = ''2013-07-21'', created_by = 7, created_at = 1, updated_at = 100\<rparr>]"
  by (simp add: insert_alunos_def insert_check_iff forged_insert_def)

text \<open>
  An insert at time 1 and an update at time 2, then an update at time 3 whose payload
  asks for \<open>updated_at = 999\<close>: the stamp goes from 2 to 3. An insert with
  \<open>updated_at = 100\<close> stores 100.
\<close>

theorem update_stamps_now_witness:
  "list_all server_stamped history \<and> map ev_time history = [1, 2] \<and>
   run_events history [] = [davi 2] \<and>
   p_updated_at forged_update = Some 999 \<and>
   update_alunos (Some 7) 3 forged_update 4 (run_events history []) = Inr [davi 3] \<and>
   update_target (Some 7) 4 (run_events history [] ! 0) \<and>
   updated_at ([davi 3] ! 0) = 3 \<and>
   updated_at (run_events history [] ! 0) < updated_at ([davi 3] ! 0) \<and>
   p_updated_at forged_insert = Some 100 \<and>
   map updated_at (projr (insert_alunos (Some 7) 1 4 forged_insert [])) = [100]"
proof -
  have 1: "list_all server_stamped history" "map ev_time history = [1, 2]"
    by (simp_all add: history_def server_stamped_def plain_insert_def)
  have 2: "\<forall>e \<in> set history. ev_time e < 3"
    by (simp add: history_def)
  have 3: "update_alunos (Some 7) 3 forged_update 4 (run_events history []) = Inr [davi 3]"
    by (simp add: history_run history_update)
  have 4: "0 < length (run_events history [])"
    "update_target (Some 7) 4 (run_events history [] ! 0)"
    by (simp_all add: history_run update_target_iff davi_def)
  have 5: "p_updated_at forged_update = Some 999" "p_updated_at forged_insert = Some 100"
    by (simp_all add: forged_update_def forged_insert_def)
  note t = update_stamps_now [where uid = "Some 7" and now = 3 and p = forged_update and k = 4
      and tbl = "run_events history []" and evs = history]
  from t 3 4 have a: "updated_at ([davi 3] ! 0) = 3"
    by blast
  from t 1 2 3 4 have b: "updated_at (run_events history [] ! 0) < updated_at ([davi 3] ! 0)"
    by blast
  note u = update_stamps_now [where uid = "Some 7" and now = 1 and gen = 4 and q = forged_insert
      and tbl = "[]"]
  from u forged_insert_stored 5
  have c: "map updated_at (projr (insert_alunos (Some 7) 1 4 forged_insert [])) = [100]"
    by auto
  from 1 3 4 5 a b c show ?thesis
    by (simp add: history_run)
qed

section \<open>Properties of the profile provisioning\<close>

lemma create_identity_cases:
  assumes "create_identity now new db = (res, db')"
  shows "(res = None \<and> user_id new \<notin> set (map user_id (auth_users db)) \<and>
          user_id new \<notin> set (map profile_id (profiles db)) \<and>
          (\<exists>e. user_email new = Some e \<and>
               db' = db\<lparr>auth_users := auth_users db @ [new],
                        profiles := profiles db @
                          [\<lparr>profile_id = user_id new, profile_email = e,
                            profile_created_at = now\<rparr>]\<rparr>)) \<or>
         (res \<noteq> None \<and> db' = db)"
  using assms
  by (auto simp: create_identity_def insert_auth_users_def handle_new_user_def
        split: if_splits option.splits)

lemma paired_init: "paired \<lparr>auth_users = [], profiles = [], alunos_rows = []\<rparr>"
  by (simp add: paired_def)

lemma paired_create:
  assumes "paired db" and "create_identity now new db = (res, db')"
  shows "paired db'"
proof -
  from create_identity_cases [OF assms(2)]
  consider e where "user_id new \<notin> set (map user_id (auth_users db))"
      "user_id new \<notin> set (map profile_id (profiles db))"
      "db' = db\<lparr>auth_users := auth_users db @ [new],
                 profiles := profiles db @
                   [\<lparr>profile_id = user_id new, profile_email = e, profile_created_at = now\<rparr>]\<rparr>"
    | "db' = db"
    by auto
  then show ?thesis
  proof cases
    case 1
    with assms(1) show ?thesis by (simp add: paired_def)
  next
    case 2
    with assms(1) show ?thesis by simp
  qed
qed

lemma paired_delete: "paired db \<Longrightarrow> paired (delete_identity k db)"
  by (auto simp: paired_def delete_identity_def distinct_map_filter)

lemma profile_id_edit:
  "map profile_id (profiles (update_profile_email uid e db)) = map profile_id (profiles db)"
  by (simp add: update_profile_email_def)

lemma auth_users_edit: "auth_users (update_profile_email uid e db) = auth_users db"
  by (simp add: update_profile_email_def)

lemma paired_edit: "paired db \<Longrightarrow> paired (update_profile_email uid e db)"
  unfolding paired_def profile_id_edit auth_users_edit .

lemma paired_rows: "paired db \<Longrightarrow> paired (db\<lparr>alunos_rows := t\<rparr>)"
  by (simp add: paired_def)

lemma reachable_paired: "reachable db \<Longrightarrow> paired db"
proof (induction rule: reachable.induct)
  case init
  show ?case by (rule paired_init)
next
  case (create db now new res db')
  then show ?case by (simp add: paired_create)
next
  case (delete db k)
  then show ?case by (simp add: paired_delete)
next
  case (edit db uid e)
  then show ?case by (simp add: paired_edit)
next
  case (rows db t)
  then show ?case by (simp add: paired_rows)
qed

lemma exactly_one:
  "distinct (map f xs) \<Longrightarrow> a \<in> set (map f xs) \<Longrightarrow> length (filter (\<lambda>q. f q = a) xs) = 1"
proof (induction xs)
  case Nil
  then show ?case by simp
next
  case (Cons x xs)
  show ?case
  proof (cases "f x = a")
    case True
    with Cons.prems have "\<forall>q \<in> set xs. f q \<noteq> a" by (force simp: image_iff)
    then have "filter (\<lambda>q. f q = a) xs = []" by (simp add: filter_empty_conv)
    with True show ?thesis by simp
  next
    case False
    with Cons show ?thesis by auto
  qed
qed

text \<open>
  C6. In every state of the database there is exactly one profile for each identity.
  Creating an identity either succeeds, and then appends the identity and one profile
  with its id and email, giving a state of the database again; or fails, and then the
  database is unchanged. In particular, when the insert of \<^verbatim>\<open>handle_new_user\<close> fails
  after the identity row was inserted, the creation fails as a whole.
\<close>

theorem one_profile_per_identity:
  assumes "reachable db"
  shows "(\<forall>u \<in> set (auth_users db).
            length (filter (\<lambda>q. profile_id q = user_id u) (profiles db)) = 1) \<and>
         (case create_identity now new db of
            (None, db') \<Rightarrow>
              (\<exists>e. user_email new = Some e \<and>
                   auth_users db' = auth_users db @ [new] \<and>
                   profiles db' = profiles db @
                     [\<lparr>profile_id = user_id new, profile_email = e, profile_created_at = now\<rparr>]) \<and>
              reachable db'
          | (Some err, db') \<Rightarrow> db' = db) \<and>
         (\<forall>db1 err. insert_auth_users new db = Inr db1 \<longrightarrow>
            handle_new_user now new db1 = Inl err \<longrightarrow>
            create_identity now new db = (Some err, db))"
proof (intro conjI ballI allI impI)
  fix u
  assume u: "u \<in> set (auth_users db)"
  from assms have p: "paired db" by (rule reachable_paired)
  then have "distinct (map profile_id (profiles db))"
    and "user_id u \<in> set (map profile_id (profiles db))"
    using u by (simp_all add: paired_def)
  then show "length (filter (\<lambda>q. profile_id q = user_id u) (profiles db)) = 1"
    by (rule exactly_one)
next
  obtain res db' where c: "create_identity now new db = (res, db')"
    by (cases "create_identity now new db")
  from assms c have r: "reachable db'" by (rule reachable.create)
  from create_identity_cases [OF c] r
  show "case create_identity now new db of
            (None, db') \<Rightarrow>
              (\<exists>e. user_email new = Some e \<and>
                   auth_users db' = auth_users db @ [new] \<and>
                   profiles db' = profiles db @
                     [\<lparr>profile_id = user_id new, profile_email = e, profile_created_at = now\<rparr>]) \<and>
              reachable db'
          | (Some err, db') \<Rightarrow> db' = db"
    unfolding c by auto
next
  fix db1 err
  assume "insert_auth_users new db = Inr db1" "handle_new_user now new db1 = Inl err"
  then show "create_identity now new db = (Some err, db)"
    by (simp add: create_identity_def)
qed

lemma db_carla_eq:
  "db_carla = \<lparr>auth_users = [carla_identity],
               profiles = [\<lparr>profile_id = 7, profile_email = ''carla@example.com'',
                            profile_created_at = 5\<rparr>],
               alunos_rows = []\<rparr>"
  by (simp add: db_carla_def create_identity_def insert_auth_users_def handle_new_user_def
        db_init_def carla_identity_def)

lemma reachable_db_carla: "reachable db_carla"
proof -
  have "reachable db_init"
    unfolding db_init_def by (rule reachable.init)
  moreover have "create_identity 5 carla_identity db_init = (None, db_carla)"
    by (simp add: db_carla_eq) 
      (simp add: create_identity_def insert_auth_users_def handle_new_user_def
        db_init_def carla_identity_def)
  ultimately show ?thesis by (rule reachable.create)
qed

text \<open>One identity with its profile; an identity without email cannot be created.\<close>

theorem one_profile_per_identity_witness:
  "reachable db_carla \<and> carla_identity \<in> set (auth_users db_carla) \<and>
   filter (\<lambda>q. profile_id q = user_id carla_identity) (profiles db_carla) =
     [\<lparr>profile_id = 7, profile_email = ''carla@example.com'', profile_created_at = 5\<rparr>] \<and>
   length (filter (\<lambda>q. profile_id q = user_id carla_identity) (profiles db_carla)) = 1 \<and>
   create_identity 6 phone_identity db_carla = (Some NotNullViolation, db_carla)"
proof -
  have 1: "carla_identity \<in> set (auth_users db_carla)"
    by (simp add: db_carla_eq)
  have 2: "filter (\<lambda>q. profile_id q = user_id carla_identity) (profiles db_carla) =
     [\<lparr>profile_id = 7, profile_email = ''carla@example.com'', profile_created_at = 5\<rparr>]"
    by (simp add: db_carla_eq carla_identity_def)
  have 3: "insert_auth_users phone_identity db_carla =
      Inr (db_carla\<lparr>auth_users := auth_users db_carla @ [phone_identity]\<rparr>)"
    by (simp add: insert_auth_users_def db_carla_eq carla_identity_def phone_identity_def)
  have 4: "handle_new_user 6 phone_identity
      (db_carla\<lparr>auth_users := auth_users db_carla @ [phone_identity]\<rparr>) = Inl NotNullViolation"
    by (simp add: handle_new_user_def phone_identity_def)
  show ?thesis
    using one_profile_per_identity [OF reachable_db_carla, where now = 6 and new = phone_identity]
      reachable_db_carla 1 2 3 4
    by simp
qed

end
